theory Spec2Isabelle
  imports Complex_Main
begin

section \<open>The MSSQL bridge (server.js)\<close>

text \<open>
  The bridge is one Express application: two read-only GET endpoints, one POST endpoint
  that forwards a query to the mssql driver, a SIGTERM listener and the callback of
  \<^verbatim>\<open>app.listen\<close>. Its only state is the module variable \<^verbatim>\<open>pool\<close>.

  The handlers are modelled as functions on an explicit process state. Everything that is
  not code of the bridge (the mssql driver with the database behind it, and the few
  JavaScript built-ins whose results the bridge only passes on) is a parameter, the
  record \<open>platform\<close>. Every call of the driver is written to the list \<open>calls\<close> together
  with its outcome, so that "the driver was not called" and "the driver was called with
  these arguments" are statements about that list. One handler runs from its beginning
  to its end without another handler running in between.
\<close>

subsection \<open>JavaScript values\<close>

text \<open>
  The values that \<^verbatim>\<open>express.json()\<close> leaves in \<^verbatim>\<open>req.body\<close>, and \<^verbatim>\<open>undefined\<close>.
  An object lists its own properties in the order in which JavaScript enumerates them;
  a property name occurs once. A number is read only for being zero or not.
\<close>

datatype jsval =
    JUndefined
  | JNull
  | JBool bool
  | JNum rat
  | JStr string
  | JArr "jsval list"
  | JObj "(string \<times> jsval) list"

text \<open>\<^verbatim>\<open>!v\<close> is true exactly for the values that are not truthy.\<close>

fun truthy :: "jsval \<Rightarrow> bool" where
  "truthy JUndefined = False"
| "truthy JNull = False"
| "truthy (JBool b) = b"
| "truthy (JNum n) = (n \<noteq> 0)"
| "truthy (JStr s) = (s \<noteq> [])"
| "truthy (JArr xs) = True"
| "truthy (JObj fs) = True"

text \<open>
  Reading the property \<open>k\<close> of a value that is neither \<^verbatim>\<open>undefined\<close> nor \<^verbatim>\<open>null\<close>,
  for a name that no prototype defines (the bridge reads \<^verbatim>\<open>query\<close> and
  \<^verbatim>\<open>parameters\<close> only): an object gives its own property, everything else
  \<^verbatim>\<open>undefined\<close>.
\<close>

fun get_prop :: "jsval \<Rightarrow> string \<Rightarrow> jsval" where
  "get_prop (JObj fs) k = (case map_of fs k of Some v \<Rightarrow> v | None \<Rightarrow> JUndefined)"
| "get_prop v k = JUndefined"

text \<open>Decimal digits of a natural number, as a template literal prints it.\<close>

fun show_nat :: "nat \<Rightarrow> string" where
  "show_nat n =
     (if n < 10 then [''0123456789'' ! n]
      else show_nat (n div 10) @ [''0123456789'' ! (n mod 10)])"

declare show_nat.simps [simp del]

subsection \<open>Errors, the driver and the platform\<close>

text \<open>A thrown \<^verbatim>\<open>Error\<close> object: the bridge reads its message and its stack.\<close>

datatype js_error = JsError (message: string) (stack: string)

text \<open>The places of the POST handler where the JavaScript engine itself throws a TypeError.\<close>

datatype type_error_site =
    DestructureNullish     \<comment> \<open>line 69: destructuring \<^verbatim>\<open>undefined\<close> or \<^verbatim>\<open>null\<close>\<close>
  | SubstringNotFunction   \<comment> \<open>line 82: \<^verbatim>\<open>query.substring\<close> on a value that is no string\<close>
  | EntriesOfNullish       \<comment> \<open>line 88: \<^verbatim>\<open>Object.entries(null)\<close>\<close>
  | LengthOfUndefined      \<comment> \<open>line 95: \<^verbatim>\<open>result.recordset.length\<close> without a recordset\<close>

type_synonym pool_ref = nat
type_synonym request_ref = nat

record sql_options =
  encrypt :: bool
  trustServerCertificate :: bool
  connectTimeout :: nat
  requestTimeout :: nat

record sql_pool_options =
  pool_max :: nat
  pool_min :: nat
  idleTimeoutMillis :: nat

text \<open>
  \<^verbatim>\<open>sqlConfig\<close>. A field read from an unset environment variable is \<^verbatim>\<open>undefined\<close>
  (\<open>None\<close>); the port is what \<^verbatim>\<open>parseInt\<close> returns, \<open>None\<close> for \<^verbatim>\<open>NaN\<close>.
\<close>

record sql_config =
  server :: "string option"
  database :: "string option"
  user :: "string option"
  password :: "string option"
  port :: "int option"
  options :: sql_options
  pool_opts :: sql_pool_options

text \<open>What \<^verbatim>\<open>request.query\<close> resolves to; a statement that returns no rows has no recordset.\<close>

record query_result =
  recordset :: "jsval list option"

text \<open>
  The platform: \<^verbatim>\<open>parseInt\<close>, the TypeError objects of the engine, and the operations of
  the mssql driver on the state \<open>'w\<close> of the driver and its database. An operation that
  may throw (or reject) returns the error on the left.
\<close>

record 'w platform =
  parseInt :: "string \<Rightarrow> int option"
  type_error :: "type_error_site \<Rightarrow> js_error"
  sql_connect :: "sql_config \<Rightarrow> 'w \<Rightarrow> (js_error + pool_ref) \<times> 'w"
  connected :: "pool_ref \<Rightarrow> 'w \<Rightarrow> bool"
  pool_request :: "pool_ref \<Rightarrow> 'w \<Rightarrow> (js_error + request_ref) \<times> 'w"
  request_input :: "request_ref \<Rightarrow> string \<Rightarrow> jsval \<Rightarrow> 'w \<Rightarrow> js_error option \<times> 'w"
  request_query :: "request_ref \<Rightarrow> string \<Rightarrow> 'w \<Rightarrow> (js_error + query_result) \<times> 'w"
  pool_close :: "pool_ref \<Rightarrow> 'w \<Rightarrow> js_error option \<times> 'w"

text \<open>The calls of the driver, each with its outcome.\<close>

datatype driver_event =
    Connect sql_config "js_error + pool_ref"
  | NewRequest pool_ref "js_error + request_ref"
  | Input request_ref string jsval "js_error option"
  | Query request_ref string "js_error + query_result"
  | Close pool_ref "js_error option"

datatype console_arg = Str string | Err js_error

datatype console_line = ConsoleLog "console_arg list" | ConsoleError "console_arg list"

subsection \<open>The process\<close>

record 'w process =
  env :: "string \<rightharpoonup> string"         \<comment> \<open>\<^verbatim>\<open>process.env\<close>\<close>
  PORT :: "string + nat"               \<comment> \<open>\<^verbatim>\<open>process.env.PORT || 3000\<close>\<close>
  sqlConfig :: sql_config
  pool :: "pool_ref option"            \<comment> \<open>\<^verbatim>\<open>let pool = null\<close>\<close>
  console :: "console_line list"
  world :: 'w
  calls :: "driver_event list"
  exited :: "nat option"               \<comment> \<open>the code given to \<^verbatim>\<open>process.exit\<close>\<close>

record response =
  status :: nat
  json :: jsval                        \<comment> \<open>the argument of \<^verbatim>\<open>res.json\<close>\<close>

text \<open>\<^verbatim>\<open>process.env.X || d\<close>: an unset or empty variable gives the default.\<close>

definition env_or :: "(string \<rightharpoonup> string) \<Rightarrow> string \<Rightarrow> string \<Rightarrow> string" where
  "env_or e k d = (case e k of None \<Rightarrow> d | Some v \<Rightarrow> if v = [] then d else v)"

definition make_sqlConfig :: "'w platform \<Rightarrow> (string \<rightharpoonup> string) \<Rightarrow> sql_config" where
  "make_sqlConfig P e =
     \<lparr> server = e ''MSSQL_SERVER'',
       database = e ''MSSQL_DATABASE'',
       user = e ''MSSQL_USERNAME'',
       password = e ''MSSQL_PASSWORD'',
       port = parseInt P (env_or e ''MSSQL_PORT'' ''1433''),
       options = \<lparr> encrypt = (e ''MSSQL_ENCRYPT'' = Some ''true''),
                   trustServerCertificate = (e ''MSSQL_TRUST_SERVER_CERTIFICATE'' = Some ''true''),
                   connectTimeout = 30000,
                   requestTimeout = 30000 \<rparr>,
       pool_opts = \<lparr> pool_max = 10, pool_min = 0, idleTimeoutMillis = 30000 \<rparr> \<rparr>"

text \<open>The state after the module has been loaded (lines 1 to 33).\<close>

definition load :: "'w platform \<Rightarrow> (string \<rightharpoonup> string) \<Rightarrow> 'w \<Rightarrow> 'w process" where
  "load P e w =
     \<lparr> env = e,
       PORT = (case e ''PORT'' of None \<Rightarrow> Inr 3000
               | Some v \<Rightarrow> if v = [] then Inr 3000 else Inl v),
       sqlConfig = make_sqlConfig P e,
       pool = None,
       console = [],
       world = w,
       calls = [],
       exited = None \<rparr>"

subsection \<open>initializePool\<close>

definition initializePool :: "'w platform \<Rightarrow> 'w process \<Rightarrow> (js_error + pool_ref) \<times> 'w process" where
  "initializePool P st =
     (case sql_connect P (sqlConfig st) (world st) of
        (Inr p, w) \<Rightarrow>
          (Inr p, st\<lparr> world := w,
                     calls := calls st @ [Connect (sqlConfig st) (Inr p)],
                     pool := Some p,
                     console := console st @ [ConsoleLog [Str ''Connected to MSSQL database'']] \<rparr>)
      | (Inl err, w) \<Rightarrow>
          (Inl err, st\<lparr> world := w,
                       calls := calls st @ [Connect (sqlConfig st) (Inl err)],
                       console := console st @
                         [ConsoleError [Str ''Database connection failed:'', Err err]] \<rparr>))"

subsection \<open>The GET endpoints\<close>

text \<open>\<^verbatim>\<open>pool && pool.connected\<close>: the left operand itself when it is \<^verbatim>\<open>null\<close>.\<close>

definition connected_flag :: "'w platform \<Rightarrow> 'w process \<Rightarrow> jsval" where
  "connected_flag P st =
     (case pool st of None \<Rightarrow> JNull | Some p \<Rightarrow> JBool (connected P p (world st)))"

definition get_health :: "'w platform \<Rightarrow> 'w process \<Rightarrow> response" where
  "get_health P st =
     \<lparr> status = 200,
       json = JObj [(''status'', JStr ''ok''),
                    (''service'', JStr ''mssql-bridge''),
                    (''connected'', connected_flag P st)] \<rparr>"

definition get_root :: "'w platform \<Rightarrow> 'w process \<Rightarrow> response" where
  "get_root P st =
     \<lparr> status = 200,
       json = JObj [(''status'', JStr ''ok''),
                    (''service'', JStr ''mssql-bridge''),
                    (''message'', JStr ''MSSQL Bridge is running''),
                    (''connected'', connected_flag P st)] \<rparr>"

subsection \<open>The POST endpoint\<close>

text \<open>
  Line 69, \<^verbatim>\<open>const { query, parameters = {} } = req.body\<close>: a TypeError for
  \<^verbatim>\<open>undefined\<close> and \<^verbatim>\<open>null\<close>; the default replaces \<^verbatim>\<open>undefined\<close> only.
\<close>

definition destructure :: "'w platform \<Rightarrow> jsval \<Rightarrow> js_error + (jsval \<times> jsval)" where
  "destructure P body =
     (if body = JUndefined \<or> body = JNull then Inl (type_error P DestructureNullish)
      else Inr (get_prop body ''query'',
                if get_prop body ''parameters'' = JUndefined then JObj []
                else get_prop body ''parameters''))"

text \<open>Line 79, \<^verbatim>\<open>pool = await initializePool()\<close>.\<close>

definition reconnect :: "'w platform \<Rightarrow> 'w process \<Rightarrow> (js_error + pool_ref) \<times> 'w process" where
  "reconnect P st =
     (case initializePool P st of
        (Inl err, st1) \<Rightarrow> (Inl err, st1)
      | (Inr p, st1) \<Rightarrow> (Inr p, st1\<lparr> pool := Some p \<rparr>))"

text \<open>
  Lines 78 to 80, \<^verbatim>\<open>if (!pool || !pool.connected)\<close>; the result is the pool that the
  module variable holds afterwards, the one line 85 uses.
\<close>

definition ensure_pool :: "'w platform \<Rightarrow> 'w process \<Rightarrow> (js_error + pool_ref) \<times> 'w process" where
  "ensure_pool P st =
     (case pool st of
        None \<Rightarrow> reconnect P st
      | Some p \<Rightarrow> if \<not> connected P p (world st) then reconnect P st else (Inr p, st))"

text \<open>\<^verbatim>\<open>Object.entries\<close> of the values a request can carry.\<close>

fun object_entries :: "'w platform \<Rightarrow> jsval \<Rightarrow> js_error + (string \<times> jsval) list" where
  "object_entries P JUndefined = Inl (type_error P EntriesOfNullish)"
| "object_entries P JNull = Inl (type_error P EntriesOfNullish)"
| "object_entries P (JBool b) = Inr []"
| "object_entries P (JNum n) = Inr []"
| "object_entries P (JStr s) = Inr (zip (map show_nat [0..<length s]) (map (\<lambda>c. JStr [c]) s))"
| "object_entries P (JArr xs) = Inr (zip (map show_nat [0..<length xs]) xs)"
| "object_entries P (JObj fs) = Inr fs"

text \<open>Lines 88 to 90: \<^verbatim>\<open>forEach\<close> stops at the first \<^verbatim>\<open>request.input\<close> that throws.\<close>

fun bind_parameters ::
  "'w platform \<Rightarrow> request_ref \<Rightarrow> (string \<times> jsval) list \<Rightarrow> 'w process \<Rightarrow> js_error option \<times> 'w process"
where
  "bind_parameters P r [] st = (None, st)"
| "bind_parameters P r ((k, v) # es) st =
     (case request_input P r k v (world st) of
        (None, w) \<Rightarrow>
          bind_parameters P r es (st\<lparr> world := w, calls := calls st @ [Input r k v None] \<rparr>)
      | (Some err, w) \<Rightarrow>
          (Some err, st\<lparr> world := w, calls := calls st @ [Input r k v (Some err)] \<rparr>))"

text \<open>Lines 93 to 98.\<close>

definition execute ::
  "'w platform \<Rightarrow> request_ref \<Rightarrow> string \<Rightarrow> 'w process \<Rightarrow> (js_error + response) \<times> 'w process"
where
  "execute P r q st =
     (case request_query P r q (world st) of
        (Inl err, w) \<Rightarrow>
          (Inl err, st\<lparr> world := w, calls := calls st @ [Query r q (Inl err)] \<rparr>)
      | (Inr result, w) \<Rightarrow>
          (case recordset result of
             None \<Rightarrow>
               (Inl (type_error P LengthOfUndefined),
                st\<lparr> world := w, calls := calls st @ [Query r q (Inr result)] \<rparr>)
           | Some rows \<Rightarrow>
               (Inr \<lparr> status = 200, json = JArr rows \<rparr>,
                st\<lparr> world := w,
                    calls := calls st @ [Query r q (Inr result)],
                    console := console st @
                      [ConsoleLog [Str (''Query executed successfully, returned '' @
                                        show_nat (length rows) @ '' rows'')]] \<rparr>)))"

text \<open>Lines 82 to 98, with the pool \<open>p\<close> that the module variable holds.\<close>

definition run_query ::
  "'w platform \<Rightarrow> pool_ref \<Rightarrow> jsval \<Rightarrow> jsval \<Rightarrow> 'w process \<Rightarrow> (js_error + response) \<times> 'w process"
where
  "run_query P p query parameters st =
     (case query of
        JStr q \<Rightarrow>
          (let st1 = st\<lparr> console := console st @
                        [ConsoleLog [Str ''Executing query:'', Str (take 100 q @ ''...'')]] \<rparr>
           in case pool_request P p (world st1) of
                (Inl err, w) \<Rightarrow>
                  (Inl err, st1\<lparr> world := w, calls := calls st1 @ [NewRequest p (Inl err)] \<rparr>)
              | (Inr r, w) \<Rightarrow>
                  (let st2 = st1\<lparr> world := w, calls := calls st1 @ [NewRequest p (Inr r)] \<rparr>
                   in case object_entries P parameters of
                        Inl err \<Rightarrow> (Inl err, st2)
                      | Inr es \<Rightarrow>
                          (case bind_parameters P r es st2 of
                             (Some err, st3) \<Rightarrow> (Inl err, st3)
                           | (None, st3) \<Rightarrow> execute P r q st3)))
      | _ \<Rightarrow> (Inl (type_error P SubstringNotFunction), st))"

text \<open>The body of the \<^verbatim>\<open>try\<close> block, lines 69 to 98.\<close>

definition post_root_try ::
  "'w platform \<Rightarrow> jsval \<Rightarrow> 'w process \<Rightarrow> (js_error + response) \<times> 'w process"
where
  "post_root_try P body st =
     (case destructure P body of
        Inl err \<Rightarrow> (Inl err, st)
      | Inr (query, parameters) \<Rightarrow>
          if \<not> truthy query
          then (Inr \<lparr> status = 400, json = JObj [(''error'', JStr ''Query is required'')] \<rparr>, st)
          else (case ensure_pool P st of
                  (Inl err, st1) \<Rightarrow> (Inl err, st1)
                | (Inr p, st1) \<Rightarrow> run_query P p query parameters st1))"

text \<open>The handler with its \<^verbatim>\<open>catch\<close> block, lines 67 to 107.\<close>

definition post_root :: "'w platform \<Rightarrow> jsval \<Rightarrow> 'w process \<Rightarrow> response \<times> 'w process" where
  "post_root P body st =
     (case post_root_try P body st of
        (Inr res, st1) \<Rightarrow> (res, st1)
      | (Inl error, st1) \<Rightarrow>
          (\<lparr> status = 500,
             json = JObj [(''error'', JStr (message error)),
                          (''details'', if env st1 ''NODE_ENV'' = Some ''development''
                                        then JStr (stack error) else JUndefined)] \<rparr>,
           st1\<lparr> console := console st1 @
                  [ConsoleError [Str ''Query execution error:'', Err error]] \<rparr>))"

text \<open>
  \<^verbatim>\<open>res.json\<close> writes \<^verbatim>\<open>JSON.stringify\<close> of its argument, which leaves out a property
  whose value is \<^verbatim>\<open>undefined\<close>: the field \<open>k\<close> of the body that the client receives.
\<close>

definition body_field :: "response \<Rightarrow> string \<Rightarrow> jsval option" where
  "body_field res k =
     (case json res of
        JObj fs \<Rightarrow> (case map_of fs k of
                      None \<Rightarrow> None
                    | Some v \<Rightarrow> if v = JUndefined then None else Some v)
      | _ \<Rightarrow> None)"

subsection \<open>Shutdown and startup\<close>

text \<open>
  The SIGTERM listener, lines 110 to 116. The first component is the error with which
  the listener's promise rejects, when \<^verbatim>\<open>pool.close()\<close> does: nothing catches it, and
  line 115 is not reached.
\<close>

definition on_sigterm :: "'w platform \<Rightarrow> 'w process \<Rightarrow> js_error option \<times> 'w process" where
  "on_sigterm P st =
     (let st1 = st\<lparr> console := console st @
                   [ConsoleLog [Str ''SIGTERM signal received: closing MSSQL connection'']] \<rparr>
      in case pool st1 of
           None \<Rightarrow> (None, st1\<lparr> exited := Some 0 \<rparr>)
         | Some p \<Rightarrow>
             (case pool_close P p (world st1) of
                (None, w) \<Rightarrow>
                  (None, st1\<lparr> world := w, calls := calls st1 @ [Close p None],
                              exited := Some 0 \<rparr>)
              | (Some err, w) \<Rightarrow>
                  (Some err, st1\<lparr> world := w, calls := calls st1 @ [Close p (Some err)] \<rparr>)))"

text \<open>The callback of \<^verbatim>\<open>app.listen\<close>, lines 119 to 126: no error leaves it.\<close>

definition on_listen :: "'w platform \<Rightarrow> 'w process \<Rightarrow> 'w process" where
  "on_listen P st =
     (let st1 = st\<lparr> console := console st @
                   [ConsoleLog [Str (''MSSQL Bridge listening on port '' @
                      (case PORT st of Inl s \<Rightarrow> s | Inr n \<Rightarrow> show_nat n))]] \<rparr>
      in case initializePool P st1 of
           (Inr p, st2) \<Rightarrow> st2
         | (Inl err, st2) \<Rightarrow>
             st2\<lparr> console := console st2 @
                  [ConsoleError [Str ''Failed to initialize database connection'']] \<rparr>)"

subsection \<open>The process as a whole\<close>

text \<open>
  What changes the state: the callback of \<^verbatim>\<open>app.listen\<close>, a POST request with its
  body, and SIGTERM. Nothing runs after \<^verbatim>\<open>process.exit\<close>.
\<close>

datatype arrival = Listening | PostRoot jsval | Sigterm

fun handle :: "'w platform \<Rightarrow> arrival \<Rightarrow> 'w process \<Rightarrow> 'w process" where
  "handle P Listening st = on_listen P st"
| "handle P (PostRoot body) st = snd (post_root P body st)"
| "handle P Sigterm st = snd (on_sigterm P st)"

fun serve :: "'w platform \<Rightarrow> arrival list \<Rightarrow> 'w process \<Rightarrow> 'w process" where
  "serve P [] st = st"
| "serve P (a # as) st = (if exited st \<noteq> None then st else serve P as (handle P a st))"

subsection \<open>Reading the list of driver calls\<close>

text \<open>The calls that bind the entries \<open>es\<close> to the request \<open>r\<close>, all accepted.\<close>

definition bound_inputs :: "request_ref \<Rightarrow> (string \<times> jsval) list \<Rightarrow> driver_event list" where
  "bound_inputs r es = map (\<lambda>(k, v). Input r k v None) es"

text \<open>The error with which a call of the driver failed, if it did.\<close>

fun failure :: "driver_event \<Rightarrow> js_error option" where
  "failure (Connect c out) = (case out of Inl e \<Rightarrow> Some e | Inr p \<Rightarrow> None)"
| "failure (NewRequest p out) = (case out of Inl e \<Rightarrow> Some e | Inr r \<Rightarrow> None)"
| "failure (Input r k v out) = out"
| "failure (Query r q out) = (case out of Inl e \<Rightarrow> Some e | Inr res \<Rightarrow> None)"
| "failure (Close p out) = out"

text \<open>Some \<^verbatim>\<open>sql.connect\<close> has resolved with a pool so far.\<close>

definition connect_seen :: "'w process \<Rightarrow> bool" where
  "connect_seen st \<longleftrightarrow> (\<exists>cfg p. Connect cfg (Inr p) \<in> set (calls st))"

text \<open>The test of line 78, \<^verbatim>\<open>!pool || !pool.connected\<close>.\<close>

definition needs_pool :: "'w platform \<Rightarrow> 'w process \<Rightarrow> bool" where
  "needs_pool P st = (case pool st of None \<Rightarrow> True | Some p \<Rightarrow> \<not> connected P p (world st))"

text \<open>
  Acquiring the pool, in the words of the specification (4.1): the request runs on the
  held pool \<open>p\<close> if that reports connected, and otherwise on the pool \<open>p\<close> with which
  \<^verbatim>\<open>sql.connect(sqlConfig)\<close> resolves; \<open>w\<close> is the state of the driver afterwards and
  \<open>pre\<close> the driver calls it took.
\<close>

definition acquired ::
  "'w platform \<Rightarrow> 'w process \<Rightarrow> pool_ref \<Rightarrow> 'w \<Rightarrow> driver_event list \<Rightarrow> bool" where
  "acquired P st p w pre =
     (if needs_pool P st
      then sql_connect P (sqlConfig st) (world st) = (Inr p, w) \<and>
           pre = [Connect (sqlConfig st) (Inr p)]
      else pool st = Some p \<and> w = world st \<and> pre = [])"

text \<open>
  The driver accepts \<^verbatim>\<open>request.input\<close> for each of the entries, called one after the
  other from the state \<open>w\<close>; and the state of the driver after these calls.
\<close>

fun inputs_accepted ::
  "'w platform \<Rightarrow> request_ref \<Rightarrow> (string \<times> jsval) list \<Rightarrow> 'w \<Rightarrow> bool" where
  "inputs_accepted P r [] w = True"
| "inputs_accepted P r ((k, v) # es) w =
     (fst (request_input P r k v w) = None \<and>
      inputs_accepted P r es (snd (request_input P r k v w)))"

fun after_inputs ::
  "'w platform \<Rightarrow> request_ref \<Rightarrow> (string \<times> jsval) list \<Rightarrow> 'w \<Rightarrow> 'w" where
  "after_inputs P r [] w = w"
| "after_inputs P r ((k, v) # es) w = after_inputs P r es (snd (request_input P r k v w))"

text \<open>
  A non-production configuration, in the words of the specification: \<^verbatim>\<open>NODE_ENV\<close> is
  anything but \<^verbatim>\<open>production\<close>.
\<close>

definition non_production :: "(string \<rightharpoonup> string) \<Rightarrow> bool" where
  "non_production e = (e ''NODE_ENV'' \<noteq> Some ''production'')"

text \<open>
  What the bridge expects of the driver: a pool that \<^verbatim>\<open>sql.connect\<close> resolves to reports
  connected, and a call on a request that succeeds leaves every connected pool connected.
\<close>

definition keeps_connected :: "'w platform \<Rightarrow> bool" where
  "keeps_connected P \<longleftrightarrow>
     (\<forall>cfg w p w'. sql_connect P cfg w = (Inr p, w') \<longrightarrow> connected P p w') \<and>
     (\<forall>p0 w r w' p. pool_request P p0 w = (Inr r, w') \<longrightarrow> connected P p w \<longrightarrow> connected P p w') \<and>
     (\<forall>r k v w w' p. request_input P r k v w = (None, w') \<longrightarrow> connected P p w \<longrightarrow> connected P p w') \<and>
     (\<forall>r q w res w' p. request_query P r q w = (Inr res, w') \<longrightarrow> connected P p w \<longrightarrow> connected P p w')"

subsection \<open>A driver to run the handlers on\<close>

text \<open>
  A small stand-in for the driver and its database, for running the handlers on concrete
  requests: the server is reachable or not, three statements are known, and a parameter
  with an empty name is refused.
\<close>

record demo_world =
  reachable :: bool
  live_pools :: "nat list"
  pools_made :: nat
  requests_made :: nat
  bound_params :: "(string \<times> jsval) list"

definition demo_type_error :: "type_error_site \<Rightarrow> js_error" where
  "demo_type_error site =
     JsError (case site of
                DestructureNullish \<Rightarrow> ''Cannot destructure property query of req.body''
              | SubstringNotFunction \<Rightarrow> ''query.substring is not a function''
              | EntriesOfNullish \<Rightarrow> ''Cannot convert undefined or null to object''
              | LengthOfUndefined \<Rightarrow> ''Cannot read properties of undefined (reading length)'')
             ''TypeError at server.js''"

definition demo_connect :: "sql_config \<Rightarrow> demo_world \<Rightarrow> (js_error + pool_ref) \<times> demo_world" where
  "demo_connect cfg w =
     (if reachable w
      then (Inr (pools_made w),
            w\<lparr> live_pools := pools_made w # live_pools w, pools_made := Suc (pools_made w) \<rparr>)
      else (Inl (JsError ''Failed to connect'' ''ConnectionError at connect''), w))"

definition demo_input ::
  "request_ref \<Rightarrow> string \<Rightarrow> jsval \<Rightarrow> demo_world \<Rightarrow> js_error option \<times> demo_world" where
  "demo_input r k v w =
     (if k = [] then (Some (JsError ''Invalid parameter name'' ''RequestError at input''), w)
      else (None, w\<lparr> bound_params := bound_params w @ [(k, v)] \<rparr>))"

definition demo_query ::
  "request_ref \<Rightarrow> string \<Rightarrow> demo_world \<Rightarrow> (js_error + query_result) \<times> demo_world" where
  "demo_query r q w =
     (if q = ''SELECT 1 AS x''
      then (Inr \<lparr> recordset = Some [JObj [(''x'', JNum 1)]] \<rparr>, w)
      else if q = ''SELECT @id AS id''
      then (Inr \<lparr> recordset = Some [JObj [(''id'', case map_of (bound_params w) ''id'' of
                                                      Some v \<Rightarrow> v | None \<Rightarrow> JNull)]] \<rparr>, w)
      else if q = ''DELETE FROM t''
      then (Inr \<lparr> recordset = None \<rparr>, w)
      else (Inl (JsError ''Invalid object name'' ''RequestError at query''), w))"

definition demo :: "demo_world platform" where
  "demo =
     \<lparr> parseInt = (\<lambda>s. if s = ''1433'' then Some 1433 else None),
       type_error = demo_type_error,
       sql_connect = demo_connect,
       connected = (\<lambda>p w. p \<in> set (live_pools w)),
       pool_request = (\<lambda>p w. (Inr (requests_made w), w\<lparr> requests_made := Suc (requests_made w),
                                                          bound_params := [] \<rparr>)),
       request_input = demo_input,
       request_query = demo_query,
       pool_close = (\<lambda>p w. (None, w\<lparr> live_pools := removeAll p (live_pools w) \<rparr>)) \<rparr>"

definition demo_db :: "bool \<Rightarrow> demo_world" where
  "demo_db up = \<lparr> reachable = up, live_pools = [], pools_made = 0, requests_made = 0,
                  bound_params = [] \<rparr>"

text \<open>The same driver with a \<^verbatim>\<open>close()\<close> that rejects.\<close>

definition demo_stuck :: "demo_world platform" where
  "demo_stuck =
     demo\<lparr> pool_close :=
             (\<lambda>p w. (Some (JsError ''Connection is closing'' ''ConnectionError at close''), w)) \<rparr>"

text \<open>
  The process after a startup that connected, when the connection has dropped since: the
  pool is held and reports disconnected.
\<close>

definition demo_dropped :: "demo_world process" where
  "demo_dropped =
     (on_listen demo (load demo Map.empty (demo_db True)))
       \<lparr> world := \<lparr> reachable = True, live_pools = [], pools_made = 1, requests_made = 0,
                    bound_params = [] \<rparr> \<rparr>"

section \<open>Properties\<close>

subsection \<open>What each step does to the state\<close>

lemmas demo_simps =
  demo_def demo_db_def demo_connect_def demo_input_def demo_query_def demo_type_error_def
  load_def make_sqlConfig_def env_or_def
  post_root_def post_root_try_def destructure_def ensure_pool_def reconnect_def
  initializePool_def run_query_def execute_def Let_def body_field_def
  get_health_def get_root_def connected_flag_def on_sigterm_def on_listen_def

lemma initializePool_calls:
  "initializePool P st = (out, st') \<Longrightarrow>
     calls st' = calls st @ [Connect (sqlConfig st) out] \<and>
     out = fst (sql_connect P (sqlConfig st) (world st)) \<and>
     world st' = snd (sql_connect P (sqlConfig st) (world st)) \<and>
     pool st' = (case out of Inr p \<Rightarrow> Some p | Inl e \<Rightarrow> pool st) \<and>
     env st' = env st \<and> sqlConfig st' = sqlConfig st \<and> exited st' = exited st"
  by (auto simp: initializePool_def split: prod.splits sum.splits)

lemma reconnect_calls:
  "reconnect P st = (out, st') \<Longrightarrow>
     calls st' = calls st @ [Connect (sqlConfig st) out] \<and>
     out = fst (sql_connect P (sqlConfig st) (world st)) \<and>
     world st' = snd (sql_connect P (sqlConfig st) (world st)) \<and>
     pool st' = (case out of Inr p \<Rightarrow> Some p | Inl e \<Rightarrow> pool st) \<and>
     env st' = env st \<and> sqlConfig st' = sqlConfig st \<and> exited st' = exited st"
  by (auto simp: reconnect_def dest!: initializePool_calls split: prod.splits sum.splits)

lemma bind_parameters_frame:
  "bind_parameters P r es st = (out, st') \<Longrightarrow>
     pool st' = pool st \<and> env st' = env st \<and> sqlConfig st' = sqlConfig st \<and>
     exited st' = exited st \<and> console st' = console st"
  by (induction P r es st rule: bind_parameters.induct)
     (auto split: prod.splits option.splits)

lemma bind_parameters_ok:
  "bind_parameters P r es st = (None, st') \<Longrightarrow>
     calls st' = calls st @ map (\<lambda>(k, v). Input r k v None) es"
  by (induction P r es st rule: bind_parameters.induct)
     (auto split: prod.splits option.splits)

lemma bind_parameters_err:
  "bind_parameters P r es st = (Some err, st') \<Longrightarrow>
     \<exists>n k v. n < length es \<and> es ! n = (k, v) \<and>
       calls st' = calls st @ map (\<lambda>(k, v). Input r k v None) (take n es) @ [Input r k v (Some err)]"
proof (induction P r es st rule: bind_parameters.induct)
  case (1 P r st)
  then show ?case by simp
next
  case (2 P r k v es st)
  show ?case
  proof (cases "request_input P r k v (world st)")
    case (Pair o1 w)
    show ?thesis
    proof (cases o1)
      case None
      with 2 Pair obtain n k' v' where
        n: "n < length es" "es ! n = (k', v')"
        "calls st' = (calls st @ [Input r k v None]) @
            map (\<lambda>(k, v). Input r k v None) (take n es) @ [Input r k' v' (Some err)]"
        by fastforce
      then show ?thesis
        by (intro exI[of _ "Suc n"] exI[of _ k'] exI[of _ v']) simp
    next
      case (Some e)
      with 2 Pair show ?thesis
        by (intro exI[of _ 0] exI[of _ k] exI[of _ v]) auto
    qed
  qed
qed

lemma execute_cases:
  assumes "execute P r q st = (out, st')"
  obtains (query_failed) e where
      "out = Inl e" "calls st' = calls st @ [Query r q (Inl e)]"
      "request_query P r q (world st) = (Inl e, world st')"
      "pool st' = pool st" "env st' = env st" "sqlConfig st' = sqlConfig st" "exited st' = exited st"
  | (no_recordset) result where
      "out = Inl (type_error P LengthOfUndefined)" "recordset result = None"
      "calls st' = calls st @ [Query r q (Inr result)]"
      "request_query P r q (world st) = (Inr result, world st')"
      "pool st' = pool st" "env st' = env st" "sqlConfig st' = sqlConfig st" "exited st' = exited st"
  | (rows) result rows where
      "out = Inr \<lparr> status = 200, json = JArr rows \<rparr>" "recordset result = Some rows"
      "calls st' = calls st @ [Query r q (Inr result)]"
      "request_query P r q (world st) = (Inr result, world st')"
      "pool st' = pool st" "env st' = env st" "sqlConfig st' = sqlConfig st" "exited st' = exited st"
  using assms
  by (auto simp: execute_def split: prod.splits sum.splits option.splits)

lemma run_query_cases:
  assumes "run_query P p query ps st = (out, st')"
  obtains (not_string) "\<forall>q. query \<noteq> JStr q"
      "out = Inl (type_error P SubstringNotFunction)" "st' = st"
  | (request_failed) q e where "query = JStr q"
      "out = Inl e" "calls st' = calls st @ [NewRequest p (Inl e)]"
  | (entries_failed) q r where "query = JStr q"
      "out = Inl (type_error P EntriesOfNullish)" "ps = JUndefined \<or> ps = JNull"
      "calls st' = calls st @ [NewRequest p (Inr r)]"
  | (input_failed) q r es n k v e where "query = JStr q"
      "object_entries P ps = Inr es" "n < length es" "es ! n = (k, v)"
      "out = Inl e"
      "calls st' = calls st @ NewRequest p (Inr r) # bound_inputs r (take n es) @ [Input r k v (Some e)]"
  | (query_failed) q r es e where "query = JStr q"
      "object_entries P ps = Inr es"
      "out = Inl e"
      "calls st' = calls st @ NewRequest p (Inr r) # bound_inputs r es @ [Query r q (Inl e)]"
  | (no_recordset) q r es result where "query = JStr q"
      "object_entries P ps = Inr es" "recordset result = None"
      "out = Inl (type_error P LengthOfUndefined)"
      "calls st' = calls st @ NewRequest p (Inr r) # bound_inputs r es @ [Query r q (Inr result)]"
  | (rows) q r es result rows where "query = JStr q"
      "object_entries P ps = Inr es" "recordset result = Some rows"
      "out = Inr \<lparr> status = 200, json = JArr rows \<rparr>"
      "calls st' = calls st @ NewRequest p (Inr r) # bound_inputs r es @ [Query r q (Inr result)]"
proof (cases query)
  case (JStr q)
  define st1 where "st1 = st\<lparr> console := console st @
      [ConsoleLog [Str ''Executing query:'', Str (take 100 q @ ''...'')]] \<rparr>"
  obtain o1 w where req: "pool_request P p (world st1) = (o1, w)" by (cases "pool_request P p (world st1)")
  show ?thesis
  proof (cases o1)
    case (Inl e)
    with assms JStr req have "out = Inl e" "calls st' = calls st @ [NewRequest p (Inl e)]"
      by (auto simp: run_query_def st1_def)
    with JStr show ?thesis by (rule request_failed)
  next
    case (Inr r)
    define st2 where "st2 = st1\<lparr> world := w, calls := calls st1 @ [NewRequest p (Inr r)] \<rparr>"
    have c2: "calls st2 = calls st @ [NewRequest p (Inr r)]" by (simp add: st2_def st1_def)
    show ?thesis
    proof (cases "object_entries P ps")
      case (Inl e)
      then have ps: "ps = JUndefined \<or> ps = JNull" "e = type_error P EntriesOfNullish"
        by (cases ps; simp)+
      from assms JStr req Inr Inl have "out = Inl e" "st' = st2"
        by (auto simp: run_query_def st1_def st2_def Let_def)
      with JStr ps c2 show ?thesis by (intro entries_failed[of q r]) auto
    next
      case es: (Inr es)
      obtain o3 st3 where b: "bind_parameters P r es st2 = (o3, st3)"
        by (cases "bind_parameters P r es st2")
      show ?thesis
      proof (cases o3)
        case (Some e)
        from bind_parameters_err[OF b[unfolded Some]] obtain n k v where
          n: "n < length es" "es ! n = (k, v)"
          "calls st3 = calls st2 @ bound_inputs r (take n es) @ [Input r k v (Some e)]"
          by (auto simp: bound_inputs_def)
        from assms JStr req Inr es b Some have "out = Inl e" "st' = st3"
          by (auto simp: run_query_def st1_def st2_def Let_def)
        with JStr es n c2 show ?thesis by (intro input_failed[of q es n k v e r]) auto
      next
        case None
        from bind_parameters_ok[OF b[unfolded None]]
        have c3: "calls st3 = calls st @ NewRequest p (Inr r) # bound_inputs r es"
          by (simp add: c2 bound_inputs_def)
        from assms JStr req Inr es b None have ex: "execute P r q st3 = (out, st')"
          by (auto simp: run_query_def st1_def st2_def Let_def)
        from ex show ?thesis
        proof (cases rule: execute_cases)
          case (query_failed e)
          with JStr es c3 show ?thesis by (intro that(5)[of q es e r]) auto
        next
          case (no_recordset result)
          with JStr es c3 show ?thesis by (intro that(6)[of q es result r]) auto
        next
          case (rows result rows)
          with JStr es c3 show ?thesis by (intro that(7)[of q es result rows r]) auto
        qed
      qed
    qed
  qed
qed (use assms in \<open>auto simp: run_query_def intro: not_string\<close>)

lemma run_query_frame:
  assumes "run_query P p query ps st = (out, st')"
  shows "pool st' = pool st \<and> env st' = env st \<and> sqlConfig st' = sqlConfig st \<and>
         exited st' = exited st"
proof (cases query)
  case (JStr q)
  show ?thesis
    using assms JStr
    by (auto simp: run_query_def Let_def split: prod.splits sum.splits option.splits
             dest!: bind_parameters_frame elim!: execute_cases)
qed (use assms in \<open>auto simp: run_query_def\<close>)

lemma ensure_pool_cases:
  assumes "ensure_pool P st = (out, st')"
  obtains (reused) p where "pool st = Some p" "connected P p (world st)"
      "out = Inr p" "st' = st"
  | (connect_failed) e where "pool st = None \<or> (\<exists>p. pool st = Some p \<and> \<not> connected P p (world st))"
      "out = Inl e" "calls st' = calls st @ [Connect (sqlConfig st) (Inl e)]"
      "sql_connect P (sqlConfig st) (world st) = (Inl e, world st')"
      "pool st' = pool st" "env st' = env st" "sqlConfig st' = sqlConfig st" "exited st' = exited st"
  | (connect_ok) p where "pool st = None \<or> (\<exists>p. pool st = Some p \<and> \<not> connected P p (world st))"
      "out = Inr p" "calls st' = calls st @ [Connect (sqlConfig st) (Inr p)]"
      "sql_connect P (sqlConfig st) (world st) = (Inr p, world st')"
      "pool st' = Some p" "env st' = env st" "sqlConfig st' = sqlConfig st" "exited st' = exited st"
proof (cases "pool st = None \<or> (\<exists>p. pool st = Some p \<and> \<not> connected P p (world st))")
  case False
  then obtain p where "pool st = Some p" "connected P p (world st)" by auto
  with assms show ?thesis by (intro reused[of p]) (auto simp: ensure_pool_def)
next
  case True
  with assms have r: "reconnect P st = (out, st')"
    by (auto simp: ensure_pool_def split: option.splits)
  note f = reconnect_calls[OF r]
  show ?thesis
  proof (cases out)
    case (Inl e)
    with f True show ?thesis
      by (intro connect_failed[of e]) (auto simp: prod_eq_iff)
  next
    case (Inr p)
    with f True show ?thesis
      by (intro connect_ok[of p]) (auto simp: prod_eq_iff)
  qed
qed

lemma post_root_try_cases:
  assumes "post_root_try P body st = (out, st')"
  obtains (nullish) "body = JUndefined \<or> body = JNull"
      "out = Inl (type_error P DestructureNullish)" "st' = st"
  | (bad_request) "body \<noteq> JUndefined" "body \<noteq> JNull" "\<not> truthy (get_prop body ''query'')"
      "out = Inr \<lparr> status = 400, json = JObj [(''error'', JStr ''Query is required'')] \<rparr>"
      "st' = st"
  | (no_pool) e where "body \<noteq> JUndefined" "body \<noteq> JNull" "truthy (get_prop body ''query'')"
      "ensure_pool P st = (Inl e, st')" "out = Inl e"
  | (ran) p st1 where "body \<noteq> JUndefined" "body \<noteq> JNull" "truthy (get_prop body ''query'')"
      "ensure_pool P st = (Inr p, st1)"
      "run_query P p (get_prop body ''query'')
         (if get_prop body ''parameters'' = JUndefined then JObj [] else get_prop body ''parameters'')
         st1 = (out, st')"
  using assms
  by (auto simp: post_root_try_def destructure_def split: if_splits prod.splits sum.splits)

lemma post_root_try_frame:
  assumes "post_root_try P body st = (out, st')"
  shows "env st' = env st \<and> sqlConfig st' = sqlConfig st \<and> exited st' = exited st"
  using assms
proof (cases rule: post_root_try_cases)
  case (no_pool e)
  from no_pool(4) show ?thesis by (cases rule: ensure_pool_cases) auto
next
  case (ran p st1)
  from ran(4) have "env st1 = env st \<and> sqlConfig st1 = sqlConfig st \<and> exited st1 = exited st"
    by (cases rule: ensure_pool_cases) auto
  with run_query_frame[OF ran(5)] show ?thesis by simp
qed auto

lemma failure_bound_inputs: "ev \<in> set (bound_inputs r es) \<Longrightarrow> failure ev = None"
  by (auto simp: bound_inputs_def)

lemma post_root_try_failure:
  assumes "post_root_try P body st = (out, st')"
    and "calls st' = calls st @ evs"
    and "ev \<in> set evs"
    and "failure ev = Some e"
  shows "out = Inl e"
  using assms(1)
proof (cases rule: post_root_try_cases)
  case nullish
  with assms show ?thesis by simp
next
  case bad_request
  with assms show ?thesis by simp
next
  case (no_pool e')
  from no_pool(4) show ?thesis
    by (cases rule: ensure_pool_cases) (use assms no_pool(5) in auto)
next
  case (ran p st1)
  from ran(4) obtain pre where pre: "calls st1 = calls st @ pre"
    "pre = [] \<or> pre = [Connect (sqlConfig st) (Inr p)]"
    by (cases rule: ensure_pool_cases) auto
  from ran(5) show ?thesis
    by (cases rule: run_query_cases)
       (use assms pre in \<open>auto dest: failure_bound_inputs in_set_takeD\<close>)
qed

lemma post_root_status:
  "status (fst (post_root P body st)) = 200 \<or>
   status (fst (post_root P body st)) = 400 \<or>
   status (fst (post_root P body st)) = 500"
proof -
  obtain out st1 where t: "post_root_try P body st = (out, st1)"
    by (cases "post_root_try P body st")
  show ?thesis
  proof (cases out)
    case (Inl e)
    with t show ?thesis by (simp add: post_root_def)
  next
    case (Inr res)
    from t have "status res = 200 \<or> status res = 400"
    proof (cases rule: post_root_try_cases)
      case (no_pool e)
      with Inr show ?thesis by simp
    next
      case (ran p st0)
      from ran(5) show ?thesis
        by (cases rule: run_query_cases) (use Inr in auto)
    qed (use Inr in auto)
    with t Inr show ?thesis by (auto simp: post_root_def)
  qed
qed

lemma keeps_connected_connect:
  "keeps_connected P \<Longrightarrow> sql_connect P cfg w = (Inr p, w') \<Longrightarrow> connected P p w'"
  by (simp add: keeps_connected_def)

lemma run_query_calls:
  assumes "run_query P p query ps st = (out, st')"
  shows "\<exists>evs. calls st' = calls st @ evs"
  using assms by (cases rule: run_query_cases) auto

lemma bind_parameters_connected:
  "keeps_connected P \<Longrightarrow> bind_parameters P r es st = (None, st') \<Longrightarrow>
     connected P p (world st) \<Longrightarrow> connected P p (world st')"
proof (induction P r es st rule: bind_parameters.induct)
  case (1 P r st)
  then show ?case by simp
next
  case (2 P r k v es st)
  obtain o1 w where i: "request_input P r k v (world st) = (o1, w)"
    by (cases "request_input P r k v (world st)")
  with 2(3) have o1: "o1 = None" by (cases o1) auto
  from 2(2,4) i o1 have "connected P p w" unfolding keeps_connected_def by blast
  with 2 i o1 show ?case by simp
qed

lemma run_query_connected:
  assumes k: "keeps_connected P"
    and r: "run_query P p0 query ps st = (Inr res, st')"
    and c: "connected P p (world st)"
  shows "connected P p (world st')"
proof (cases query)
  case (JStr q)
  obtain o1 w where req: "pool_request P p0 (world st) = (o1, w)"
    by (cases "pool_request P p0 (world st)")
  from r JStr req obtain rq where o1: "o1 = Inr rq"
    by (cases o1) (auto simp: run_query_def)
  from k req o1 c have cw: "connected P p w" unfolding keeps_connected_def by blast
  define st2 where "st2 = st\<lparr> console := console st @
      [ConsoleLog [Str ''Executing query:'', Str (take 100 q @ ''...'')]],
      world := w,
      calls := calls st @ [NewRequest p0 (Inr rq)] \<rparr>"
  have w2: "world st2 = w" by (simp add: st2_def)
  from r JStr req o1 obtain es where es: "object_entries P ps = Inr es"
    by (cases "object_entries P ps") (auto simp: run_query_def)
  obtain o3 st3 where b: "bind_parameters P rq es st2 = (o3, st3)"
    by (cases "bind_parameters P rq es st2")
  from r JStr req o1 es b have o3: "o3 = None" and ex: "execute P rq q st3 = (Inr res, st')"
    by (cases o3; auto simp: run_query_def st2_def)+
  from bind_parameters_connected[OF k b[unfolded o3]] cw w2 have c3: "connected P p (world st3)"
    by simp
  from ex obtain result where "request_query P rq q (world st3) = (Inr result, world st')"
    by (cases rule: execute_cases) auto
  with k c3 show ?thesis unfolding keeps_connected_def by blast
qed (use r in \<open>auto simp: run_query_def\<close>)

lemma post_root_ok_connected:
  assumes k: "keeps_connected P"
    and r: "post_root P body st = (res, st')"
    and s: "status res = 200"
  shows "\<exists>p. pool st' = Some p \<and> connected P p (world st')"
proof -
  obtain out st1 where t: "post_root_try P body st = (out, st1)"
    by (cases "post_root_try P body st")
  with r s have o: "out = Inr res" "st1 = st'"
    by (auto simp: post_root_def split: sum.splits)
  from t show ?thesis
  proof (cases rule: post_root_try_cases)
    case nullish
    with o show ?thesis by simp
  next
    case bad_request
    with o s show ?thesis by auto
  next
    case (no_pool e)
    with o show ?thesis by simp
  next
    case (ran p st0)
    from ran(4) have "pool st0 = Some p \<and> connected P p (world st0)"
    proof (cases rule: ensure_pool_cases)
      case (connect_ok p')
      from keeps_connected_connect[OF k connect_ok(4)] have "connected P p' (world st0)" .
      with connect_ok show ?thesis by simp
    qed auto
    moreover from run_query_frame[OF ran(5)] have "pool st1 = pool st0" by simp
    ultimately show ?thesis
      using run_query_connected[OF k ran(5)[unfolded o]] o by auto
  qed
qed

lemma post_root_pool:
  assumes "post_root P body st = (res, st')"
  shows "\<exists>evs. calls st' = calls st @ evs \<and>
           (pool st' = pool st \<or> (\<exists>cfg p. Connect cfg (Inr p) \<in> set evs))"
proof -
  obtain out st1 where t: "post_root_try P body st = (out, st1)"
    by (cases "post_root_try P body st")
  have c: "calls st' = calls st1" "pool st' = pool st1"
    using assms t by (auto simp: post_root_def split: sum.splits)
  from t show ?thesis
  proof (cases rule: post_root_try_cases)
    case (no_pool e)
    from no_pool(4) show ?thesis
      by (cases rule: ensure_pool_cases) (use c in auto)
  next
    case (ran p st0)
    from ran(4) have pre:
      "(calls st0 = calls st \<and> pool st0 = pool st) \<or>
       (calls st0 = calls st @ [Connect (sqlConfig st) (Inr p)])"
      by (cases rule: ensure_pool_cases) auto
    have pl: "pool st1 = pool st0" using run_query_frame[OF ran(5)] by simp
    from run_query_calls[OF ran(5)] obtain rest where rest: "calls st1 = calls st0 @ rest"
      by blast
    from pre show ?thesis
    proof
      assume "calls st0 = calls st \<and> pool st0 = pool st"
      with c pl rest show ?thesis by auto
    next
      assume "calls st0 = calls st @ [Connect (sqlConfig st) (Inr p)]"
      with c rest have "calls st' = calls st @ (Connect (sqlConfig st) (Inr p) # rest)" by simp
      then show ?thesis by (intro exI[of _ "Connect (sqlConfig st) (Inr p) # rest"]) auto
    qed
  qed (use c in auto)
qed

lemma handle_connect_seen:
  assumes "pool st \<noteq> None \<longrightarrow> connect_seen st"
  shows "pool (handle P a st) \<noteq> None \<longrightarrow> connect_seen (handle P a st)"
proof (cases a)
  case Listening
  with assms show ?thesis
    by (auto simp: on_listen_def initializePool_def connect_seen_def Let_def
             split: prod.splits sum.splits)
next
  case (PostRoot body)
  obtain res st' where r: "post_root P body st = (res, st')" by (cases "post_root P body st")
  from post_root_pool[OF r] assms PostRoot r show ?thesis
    by (auto simp: connect_seen_def; blast)
next
  case Sigterm
  with assms show ?thesis
    by (auto simp: on_sigterm_def connect_seen_def Let_def split: prod.splits option.splits)
qed

lemma serve_connect_seen:
  "(pool st \<noteq> None \<longrightarrow> connect_seen st) \<Longrightarrow>
     pool (serve P as st) \<noteq> None \<longrightarrow> connect_seen (serve P as st)"
proof (induction as arbitrary: st)
  case Nil
  then show ?case by simp
next
  case (Cons a as)
  from Cons.IH[OF handle_connect_seen[OF Cons.prems]] Cons.prems show ?case by simp
qed

lemma demo_keeps_connected: "keeps_connected demo"
  by (auto simp: keeps_connected_def demo_def demo_connect_def demo_input_def demo_query_def
           split: if_splits)

subsection \<open>The handler against the driver\<close>

lemmas acquired_simps = acquired_def needs_pool_def

lemma bind_parameters_accepted:
  "inputs_accepted P r es (world st) \<Longrightarrow>
     fst (bind_parameters P r es st) = None \<and>
     world (snd (bind_parameters P r es st)) = after_inputs P r es (world st)"
  by (induction P r es st rule: bind_parameters.induct)
     (auto split: prod.splits option.splits)

lemma bind_parameters_refused:
  "n < length es \<Longrightarrow> es ! n = (k, v) \<Longrightarrow>
   inputs_accepted P r (take n es) (world st) \<Longrightarrow>
   request_input P r k v (after_inputs P r (take n es) (world st)) = (Some e, w) \<Longrightarrow>
     fst (bind_parameters P r es st) = Some e \<and>
     world (snd (bind_parameters P r es st)) = w \<and>
     calls (snd (bind_parameters P r es st)) =
       calls st @ bound_inputs r (take n es) @ [Input r k v (Some e)]"
proof (induction P r es st arbitrary: n rule: bind_parameters.induct)
  case (1 P r st)
  then show ?case by simp
next
  case (2 P r k' v' es st)
  show ?case
  proof (cases n)
    case 0
    with 2(2-) show ?thesis by (auto simp: bound_inputs_def)
  next
    case (Suc m)
    obtain o1 w1 where i: "request_input P r k' v' (world st) = (o1, w1)"
      by (cases "request_input P r k' v' (world st)")
    from 2(4) Suc i have o1: "o1 = None" and acc: "inputs_accepted P r (take m es) w1"
      by auto
    let ?st1 = "st\<lparr> world := w1, calls := calls st @ [Input r k' v' None] \<rparr>"
    from 2(2,3,5) Suc i have
      "m < length es" "es ! m = (k, v)"
      "request_input P r k v (after_inputs P r (take m es) (world ?st1)) = (Some e, w)"
      by auto
    from "2.IH"[OF i[symmetric] o1 this(1,2) _ this(3)] acc
    have "fst (bind_parameters P r es ?st1) = Some e \<and>
          world (snd (bind_parameters P r es ?st1)) = w \<and>
          calls (snd (bind_parameters P r es ?st1)) =
            calls ?st1 @ bound_inputs r (take m es) @ [Input r k v (Some e)]"
      by simp
    with i o1 Suc show ?thesis by (simp add: bound_inputs_def)
  qed
qed

lemma ensure_pool_acquired:
  assumes "acquired P st p w pre"
  shows "fst (ensure_pool P st) = Inr p \<and>
         world (snd (ensure_pool P st)) = w \<and>
         calls (snd (ensure_pool P st)) = calls st @ pre \<and>
         pool (snd (ensure_pool P st)) = Some p \<and>
         env (snd (ensure_pool P st)) = env st \<and>
         sqlConfig (snd (ensure_pool P st)) = sqlConfig st \<and>
         exited (snd (ensure_pool P st)) = exited st"
  using assms
  by (auto simp: acquired_def needs_pool_def ensure_pool_def reconnect_def initializePool_def
           split: option.splits if_splits)

lemma run_query_accepted:
  assumes "pool_request P p (world st) = (Inr r, w1)"
    and "object_entries P ps = Inr es"
    and "inputs_accepted P r es w1"
    and "request_query P r q (after_inputs P r es w1) = (out, w2)"
  shows "calls (snd (run_query P p (JStr q) ps st)) =
           calls st @ NewRequest p (Inr r) # bound_inputs r es @ [Query r q out] \<and>
         world (snd (run_query P p (JStr q) ps st)) = w2 \<and>
         fst (run_query P p (JStr q) ps st) =
           (case out of
              Inl e \<Rightarrow> Inl e
            | Inr result \<Rightarrow>
                (case recordset result of
                   None \<Rightarrow> Inl (type_error P LengthOfUndefined)
                 | Some rows \<Rightarrow> Inr \<lparr> status = 200, json = JArr rows \<rparr>))"
proof -
  define st2 where "st2 = st\<lparr> console := console st @
      [ConsoleLog [Str ''Executing query:'', Str (take 100 q @ ''...'')]],
      world := w1, calls := calls st @ [NewRequest p (Inr r)] \<rparr>"
  have w2: "world st2 = w1" and c2: "calls st2 = calls st @ [NewRequest p (Inr r)]"
    by (simp_all add: st2_def)
  obtain o3 st3 where b: "bind_parameters P r es st2 = (o3, st3)"
    by (cases "bind_parameters P r es st2")
  from bind_parameters_accepted[of P r es st2] assms(3) w2 b
  have o3: "o3 = None" and w3: "world st3 = after_inputs P r es w1" by simp_all
  from bind_parameters_ok[OF b[unfolded o3]] c2
  have c3: "calls st3 = calls st @ NewRequest p (Inr r) # bound_inputs r es"
    by (simp add: bound_inputs_def)
  have "run_query P p (JStr q) ps st = execute P r q st3"
    using assms(1,2) b o3 by (simp add: run_query_def st2_def)
  with assms(4) w3 c3 show ?thesis
    by (auto simp: execute_def split: sum.splits option.splits)
qed

lemma run_query_refused:
  assumes "pool_request P p (world st) = (Inr r, w1)"
    and "object_entries P ps = Inr es"
    and "n < length es" and "es ! n = (k, v)"
    and "inputs_accepted P r (take n es) w1"
    and "request_input P r k v (after_inputs P r (take n es) w1) = (Some e, w2)"
  shows "calls (snd (run_query P p (JStr q) ps st)) =
           calls st @ NewRequest p (Inr r) # bound_inputs r (take n es) @ [Input r k v (Some e)] \<and>
         world (snd (run_query P p (JStr q) ps st)) = w2 \<and>
         fst (run_query P p (JStr q) ps st) = Inl e"
proof -
  define st2 where "st2 = st\<lparr> console := console st @
      [ConsoleLog [Str ''Executing query:'', Str (take 100 q @ ''...'')]],
      world := w1, calls := calls st @ [NewRequest p (Inr r)] \<rparr>"
  have w2: "world st2 = w1" and c2: "calls st2 = calls st @ [NewRequest p (Inr r)]"
    by (simp_all add: st2_def)
  from bind_parameters_refused[of n es k v P r st2 e w2] assms(3-6) w2 c2
  have b: "fst (bind_parameters P r es st2) = Some e"
    "world (snd (bind_parameters P r es st2)) = w2"
    "calls (snd (bind_parameters P r es st2)) =
       calls st @ NewRequest p (Inr r) # bound_inputs r (take n es) @ [Input r k v (Some e)]"
    by simp_all
  obtain o3 st3 where s: "bind_parameters P r es st2 = (o3, st3)"
    by (cases "bind_parameters P r es st2")
  with b have "o3 = Some e" by simp
  with s assms(1,2) have "run_query P p (JStr q) ps st = (Inl e, st3)"
    by (simp add: run_query_def st2_def)
  with b s show ?thesis by simp
qed

lemma destructure_mapping:
  assumes "body \<noteq> JUndefined" and "body \<noteq> JNull"
    and "get_prop body ''query'' = JStr q"
    and "get_prop body ''parameters'' = JObj ps \<or>
         (get_prop body ''parameters'' = JUndefined \<and> ps = [])"
  shows "destructure P body = Inr (JStr q, JObj ps)"
  using assms by (auto simp: destructure_def)

lemma post_root_try_runs:
  assumes "body \<noteq> JUndefined" and "body \<noteq> JNull"
    and "get_prop body ''query'' = JStr q" and "q \<noteq> []"
    and "get_prop body ''parameters'' = JObj ps \<or>
         (get_prop body ''parameters'' = JUndefined \<and> ps = [])"
    and "acquired P st p w0 pre"
  shows "post_root_try P body st = run_query P p (JStr q) (JObj ps) (snd (ensure_pool P st))"
proof -
  obtain o1 st0 where e: "ensure_pool P st = (o1, st0)" by (cases "ensure_pool P st")
  with ensure_pool_acquired[OF assms(6)] have "o1 = Inr p" by simp
  with e destructure_mapping[OF assms(1,2,3,5), of P] assms(4) show ?thesis
    by (simp add: post_root_try_def)
qed

lemma post_root_calls_world:
  "calls (snd (post_root P body st)) = calls (snd (post_root_try P body st)) \<and>
   world (snd (post_root P body st)) = world (snd (post_root_try P body st)) \<and>
   pool (snd (post_root P body st)) = pool (snd (post_root_try P body st))"
  by (auto simp: post_root_def split: prod.splits sum.splits)

lemma bind_parameters_calls:
  assumes "bind_parameters P r es st = (out, st')"
  shows "\<exists>evs. calls st' = calls st @ evs"
proof (cases out)
  case None
  with bind_parameters_ok[of P r es st st'] assms show ?thesis by blast
next
  case (Some e)
  with bind_parameters_err[of P r es st e st'] assms show ?thesis by blast
qed

lemma run_query_request:
  assumes "run_query P p (JStr q) ps st = (out, st')"
  shows "\<exists>rest. calls st' = calls st @ NewRequest p (fst (pool_request P p (world st))) # rest"
proof -
  obtain o1 w where req: "pool_request P p (world st) = (o1, w)"
    by (cases "pool_request P p (world st)")
  show ?thesis
  proof (cases o1)
    case (Inl e)
    with assms req show ?thesis by (auto simp: run_query_def)
  next
    case (Inr r)
    define st2 where "st2 = st\<lparr> console := console st @
        [ConsoleLog [Str ''Executing query:'', Str (take 100 q @ ''...'')]],
        world := w, calls := calls st @ [NewRequest p (Inr r)] \<rparr>"
    have c2: "calls st2 = calls st @ [NewRequest p (Inr r)]" by (simp add: st2_def)
    show ?thesis
    proof (cases "object_entries P ps")
      case (Inl e)
      with assms req Inr have "st' = st2" by (auto simp: run_query_def st2_def)
      with c2 req Inr show ?thesis by simp
    next
      case es: (Inr es)
      obtain o3 st3 where b: "bind_parameters P r es st2 = (o3, st3)"
        by (cases "bind_parameters P r es st2")
      from bind_parameters_calls[OF b] c2 obtain evs where
        c3: "calls st3 = calls st @ NewRequest p (Inr r) # evs" by auto
      show ?thesis
      proof (cases o3)
        case (Some e)
        with assms req Inr es b have "st' = st3" by (auto simp: run_query_def st2_def)
        with c3 req Inr show ?thesis by simp
      next
        case None
        with assms req Inr es b have "execute P r q st3 = (out, st')"
          by (auto simp: run_query_def st2_def)
        then obtain x where "calls st' = calls st3 @ [x]"
          by (cases rule: execute_cases) auto
        with c3 req Inr show ?thesis by simp
      qed
    qed
  qed
qed

lemma run_query_trace:
  assumes "run_query P p query ps st = (out, st')"
  shows "\<exists>rest. calls st' = calls st @ rest \<and> (\<forall>c x. Connect c x \<notin> set rest) \<and>
           (\<forall>q. query = JStr q \<longrightarrow>
              (\<exists>rest'. rest = NewRequest p (fst (pool_request P p (world st))) # rest'))"
proof -
  have nc: "\<And>c x r es. Connect c x \<notin> set (bound_inputs r es)"
    by (auto simp: bound_inputs_def)
  from assms obtain rest where rest: "calls st' = calls st @ rest" "\<forall>c x. Connect c x \<notin> set rest"
    "(\<forall>q. query \<noteq> JStr q) \<longrightarrow> rest = []"
    by (cases rule: run_query_cases) (auto simp: nc dest: in_set_takeD)
  show ?thesis
  proof (cases query)
    case (JStr q)
    from run_query_request[OF assms[unfolded JStr]] rest(1) JStr
    have "\<exists>rest'. rest = NewRequest p (fst (pool_request P p (world st))) # rest'" by auto
    with rest JStr show ?thesis by auto
  qed (use rest in auto)
qed

subsection \<open>The claims\<close>




text \<open>
  C2. A POST / request whose body has no \<^verbatim>\<open>query\<close> field, or an empty one (or any
  other value that is not truthy), is answered with status 400 and the body
  \<^verbatim>\<open>{ error: 'Query is required' }\<close>, and the process state is left as it was: the pool
  reference, the state of the driver and the list of driver calls are unchanged, so
  neither \<^verbatim>\<open>sql.connect\<close> nor \<^verbatim>\<open>request.query\<close> was called.
\<close>

theorem post_root_query_required:
  assumes "body \<noteq> JUndefined" and "body \<noteq> JNull"
    and "\<not> truthy (get_prop body ''query'')"
  shows "status (fst (post_root P body st)) = 400 \<and>
         body_field (fst (post_root P body st)) ''error'' = Some (JStr ''Query is required'') \<and>
         snd (post_root P body st) = st"
  using assms
  by (simp add: post_root_def post_root_try_def destructure_def body_field_def)

theorem post_root_query_required_witness:
  "status (fst (post_root demo (JObj [(''parameters'', JObj [(''id'', JNum 5)])])
                  (load demo Map.empty (demo_db True)))) = 400 \<and>
   calls (snd (post_root demo (JObj [(''parameters'', JObj [(''id'', JNum 5)])])
                  (load demo Map.empty (demo_db True)))) = [] \<and>
   pool (snd (post_root demo (JObj [(''parameters'', JObj [(''id'', JNum 5)])])
                  (load demo Map.empty (demo_db True)))) = None \<and>
   status (fst (post_root demo (JObj [(''query'', JStr '''')])
                  (load demo Map.empty (demo_db True)))) = 400"
  using post_root_query_required
          [of "JObj [(''parameters'', JObj [(''id'', JNum 5)])]" demo
              "load demo Map.empty (demo_db True)"]
        post_root_query_required
          [of "JObj [(''query'', JStr '''')]" demo "load demo Map.empty (demo_db True)"]
  by (simp add: load_def)

text \<open>
  C3, as stated, fails. With \<^verbatim>\<open>NODE_ENV=test\<close>, which is not a production
  configuration, a request whose pool acquisition fails is answered with status 500 and
  the body has no \<^verbatim>\<open>details\<close> field: line 104 asks for \<^verbatim>\<open>NODE_ENV === 'development'\<close>.
\<close>

theorem post_root_error_details_counterexample:
  "calls (snd (post_root demo (JObj [(''query'', JStr ''SELECT 1 AS x'')])
                 (load demo [''NODE_ENV'' \<mapsto> ''test''] (demo_db False)))) =
     [Connect (make_sqlConfig demo [''NODE_ENV'' \<mapsto> ''test''])
        (Inl (JsError ''Failed to connect'' ''ConnectionError at connect''))] \<and>
   status (fst (post_root demo (JObj [(''query'', JStr ''SELECT 1 AS x'')])
                 (load demo [''NODE_ENV'' \<mapsto> ''test''] (demo_db False)))) = 500 \<and>
   non_production [''NODE_ENV'' \<mapsto> ''test''] \<and>
   body_field (fst (post_root demo (JObj [(''query'', JStr ''SELECT 1 AS x'')])
                 (load demo [''NODE_ENV'' \<mapsto> ''test''] (demo_db False)))) ''details'' = None"
  by (simp add: demo_simps non_production_def)

text \<open>
  C3, amended. When a call of the driver fails during a POST / request (pool acquisition,
  creating the request, binding a parameter or executing the query), the handler answers
  with status 500 and the error's message in the field \<^verbatim>\<open>error\<close>; the field
  \<^verbatim>\<open>details\<close> is present if and only if \<^verbatim>\<open>NODE_ENV\<close> is exactly
  \<^verbatim>\<open>development\<close>, and then it is the error's stack.
\<close>

theorem post_root_error_response:
  assumes "post_root P body st = (res, st')"
    and "calls st' = calls st @ evs"
    and "ev \<in> set evs"
    and "failure ev = Some e"
  shows "status res = 500 \<and>
         body_field res ''error'' = Some (JStr (message e)) \<and>
         (body_field res ''details'' \<noteq> None \<longleftrightarrow> env st ''NODE_ENV'' = Some ''development'') \<and>
         (env st ''NODE_ENV'' = Some ''development'' \<longrightarrow>
            body_field res ''details'' = Some (JStr (stack e)))"
proof -
  obtain out st1 where t: "post_root_try P body st = (out, st1)"
    by (cases "post_root_try P body st")
  have c: "calls st' = calls st1"
    using assms(1) t by (auto simp: post_root_def split: sum.splits)
  have out: "out = Inl e"
    using post_root_try_failure[OF t _ assms(3,4)] assms(2) c by simp
  have "env st1 = env st" using post_root_try_frame[OF t] by simp
  with assms(1) t out show ?thesis
    by (cases "env st ''NODE_ENV'' = Some ''development''")
       (auto simp: post_root_def body_field_def)
qed

theorem post_root_error_response_witness:
  "status (fst (post_root demo (JObj [(''query'', JStr ''SELECT * FROM missing'')])
                 (load demo [''NODE_ENV'' \<mapsto> ''development''] (demo_db True)))) = 500 \<and>
   body_field (fst (post_root demo (JObj [(''query'', JStr ''SELECT * FROM missing'')])
                 (load demo [''NODE_ENV'' \<mapsto> ''development''] (demo_db True)))) ''error'' =
     Some (JStr ''Invalid object name'') \<and>
   body_field (fst (post_root demo (JObj [(''query'', JStr ''SELECT * FROM missing'')])
                 (load demo [''NODE_ENV'' \<mapsto> ''development''] (demo_db True)))) ''details'' =
     Some (JStr ''RequestError at query'')"
proof -
  let ?st = "load demo [''NODE_ENV'' \<mapsto> ''development''] (demo_db True)"
  let ?body = "JObj [(''query'', JStr ''SELECT * FROM missing'')]"
  let ?run = "post_root demo ?body ?st"
  let ?e = "JsError ''Invalid object name'' ''RequestError at query''"
  have calls: "calls (snd ?run) = calls ?st @
      [Connect (sqlConfig ?st) (Inr 0), NewRequest 0 (Inr 0),
       Query 0 ''SELECT * FROM missing'' (Inl ?e)]"
    by (simp add: demo_simps)
  have env: "env ?st ''NODE_ENV'' = Some ''development''" by (simp add: load_def)
  show ?thesis
    using post_root_error_response
      [of demo ?body ?st "fst ?run" "snd ?run" _ "Query 0 ''SELECT * FROM missing'' (Inl ?e)" ?e,
       OF _ calls] env
    by simp
qed

text \<open>
  C8, as stated, fails. When \<^verbatim>\<open>pool.close()\<close> rejects, nothing catches the
  rejection: the listener throws and \<^verbatim>\<open>process.exit(0)\<close> is not reached. And a pool
  that is held but reports disconnected is closed all the same: line 112 tests the
  reference.
\<close>

theorem on_sigterm_close_rejects_counterexample:
  "pool (on_listen demo_stuck (load demo_stuck Map.empty (demo_db True))) = Some 0 \<and>
   fst (on_sigterm demo_stuck (on_listen demo_stuck (load demo_stuck Map.empty (demo_db True)))) =
     Some (JsError ''Connection is closing'' ''ConnectionError at close'') \<and>
   exited (snd (on_sigterm demo_stuck
                  (on_listen demo_stuck (load demo_stuck Map.empty (demo_db True))))) = None \<and>
   pool demo_dropped = Some 0 \<and> \<not> connected demo 0 (world demo_dropped) \<and>
   calls (snd (on_sigterm demo demo_dropped)) =
     [Connect (make_sqlConfig demo Map.empty) (Inr 0), Close 0 None]"
  by (simp add: demo_stuck_def demo_dropped_def demo_simps)

text \<open>
  C8, amended. On SIGTERM, with the pool reference \<^verbatim>\<open>null\<close> the listener exits with
  code 0 and calls nothing of the driver. With the pool reference set, whether or not
  that pool reports connected, it calls \<^verbatim>\<open>close()\<close> on that pool, once; when
  \<^verbatim>\<open>close()\<close> resolves it does not throw and exits with code 0; when \<^verbatim>\<open>close()\<close>
  rejects, the listener throws that error and does not call \<^verbatim>\<open>process.exit\<close>.
\<close>

theorem on_sigterm_exit:
  "(pool st = None \<longrightarrow>
      fst (on_sigterm P st) = None \<and>
      exited (snd (on_sigterm P st)) = Some 0 \<and>
      calls (snd (on_sigterm P st)) = calls st \<and>
      world (snd (on_sigterm P st)) = world st) \<and>
   (\<forall>p. pool st = Some p \<and> fst (pool_close P p (world st)) = None \<longrightarrow>
      fst (on_sigterm P st) = None \<and>
      exited (snd (on_sigterm P st)) = Some 0 \<and>
      calls (snd (on_sigterm P st)) = calls st @ [Close p None] \<and>
      world (snd (on_sigterm P st)) = snd (pool_close P p (world st))) \<and>
   (\<forall>p e. pool st = Some p \<and> fst (pool_close P p (world st)) = Some e \<longrightarrow>
      fst (on_sigterm P st) = Some e \<and>
      exited (snd (on_sigterm P st)) = exited st \<and>
      calls (snd (on_sigterm P st)) = calls st @ [Close p (Some e)])"
  by (auto simp: on_sigterm_def Let_def split: prod.splits option.splits)

theorem on_sigterm_exit_witness:
  "exited (snd (on_sigterm demo (load demo Map.empty (demo_db True)))) = Some 0 \<and>
   calls (snd (on_sigterm demo (load demo Map.empty (demo_db True)))) = [] \<and>
   fst (on_sigterm demo (on_listen demo (load demo Map.empty (demo_db True)))) = None \<and>
   exited (snd (on_sigterm demo (on_listen demo (load demo Map.empty (demo_db True))))) = Some 0 \<and>
   calls (snd (on_sigterm demo (on_listen demo (load demo Map.empty (demo_db True))))) =
     [Connect (make_sqlConfig demo Map.empty) (Inr 0), Close 0 None] \<and>
   connected demo 0 (world (on_listen demo (load demo Map.empty (demo_db True)))) \<and>
   \<not> connected demo 0
       (world (snd (on_sigterm demo (on_listen demo (load demo Map.empty (demo_db True)))))) \<and>
   \<not> connected demo 0 (world demo_dropped) \<and>
   fst (on_sigterm demo demo_dropped) = None \<and>
   exited (snd (on_sigterm demo demo_dropped)) = Some 0 \<and>
   calls (snd (on_sigterm demo demo_dropped)) =
     [Connect (make_sqlConfig demo Map.empty) (Inr 0), Close 0 None]"
proof -
  let ?st0 = "load demo Map.empty (demo_db True)"
  let ?st1 = "on_listen demo ?st0"
  have p0: "pool ?st0 = None" by (simp add: load_def)
  have p1: "pool ?st1 = Some 0 \<and> fst (pool_close demo 0 (world ?st1)) = None"
    by (simp add: demo_simps)
  have p2: "pool demo_dropped = Some 0 \<and> fst (pool_close demo 0 (world demo_dropped)) = None"
    by (simp add: demo_dropped_def demo_simps)
  have c1: "calls ?st1 = [Connect (make_sqlConfig demo Map.empty) (Inr 0)]"
    by (simp add: demo_simps)
  have c2: "calls demo_dropped = [Connect (make_sqlConfig demo Map.empty) (Inr 0)]"
    by (simp add: demo_dropped_def demo_simps)
  have w: "connected demo 0 (world ?st1) \<and>
           \<not> connected demo 0 (snd (pool_close demo 0 (world ?st1))) \<and>
           \<not> connected demo 0 (world demo_dropped)"
    by (simp add: demo_dropped_def demo_simps)
  show ?thesis
    using on_sigterm_exit [of ?st0 demo] on_sigterm_exit [of ?st1 demo]
          on_sigterm_exit [of demo_dropped demo] p0 p1 p2 c1 c2 w
    by (simp add: load_def)
qed

text \<open>
  C9. The \<^verbatim>\<open>catch\<close> block of the POST / handler leaves the pool reference alone: when
  the request is answered with 500 after \<^verbatim>\<open>sql.connect\<close> had resolved with a new pool,
  the module variable holds that new pool afterwards; when no connect had resolved, it
  holds what it held before; and \<^verbatim>\<open>close()\<close> is never called.
\<close>

theorem post_root_error_keeps_pool:
  assumes "post_root P body st = (res, st')"
    and "calls st' = calls st @ evs"
    and "status res = 500"
  shows "(\<forall>cfg p. Connect cfg (Inr p) \<in> set evs \<longrightarrow> pool st' = Some p) \<and>
         ((\<forall>cfg p. Connect cfg (Inr p) \<notin> set evs) \<longrightarrow> pool st' = pool st) \<and>
         (\<forall>p out. Close p out \<notin> set evs)"
proof -
  obtain out st1 where t: "post_root_try P body st = (out, st1)"
    by (cases "post_root_try P body st")
  have c: "calls st' = calls st1" "pool st' = pool st1"
    using assms(1) t by (auto simp: post_root_def split: sum.splits)
  have ni: "\<And>cfg p r es. Connect cfg p \<notin> set (bound_inputs r es)"
           "\<And>p out r es. Close p out \<notin> set (bound_inputs r es)"
    by (auto simp: bound_inputs_def)
  from t show ?thesis
  proof (cases rule: post_root_try_cases)
    case nullish
    with assms c show ?thesis by simp
  next
    case bad_request
    with assms c show ?thesis by simp
  next
    case (no_pool e)
    from no_pool(4) show ?thesis
      by (cases rule: ensure_pool_cases) (use assms c in auto)
  next
    case (ran p st0)
    from ran(4) have pre:
      "(calls st0 = calls st \<and> pool st0 = pool st) \<or>
       (calls st0 = calls st @ [Connect (sqlConfig st) (Inr p)] \<and> pool st0 = Some p)"
      by (cases rule: ensure_pool_cases) auto
    have pl: "pool st1 = pool st0" using run_query_frame[OF ran(5)] by simp
    from ran(5) show ?thesis
      by (cases rule: run_query_cases)
         (use assms c pre pl ni in \<open>auto dest: in_set_takeD simp: bound_inputs_def\<close>)
  qed
qed

theorem post_root_error_keeps_pool_witness:
  "status (fst (post_root demo (JObj [(''query'', JStr ''SELECT * FROM missing'')])
                 (load demo Map.empty (demo_db True)))) = 500 \<and>
   pool (load demo Map.empty (demo_db True)) = None \<and>
   pool (snd (post_root demo (JObj [(''query'', JStr ''SELECT * FROM missing'')])
                 (load demo Map.empty (demo_db True)))) = Some 0"
proof -
  let ?st = "load demo Map.empty (demo_db True)"
  let ?body = "JObj [(''query'', JStr ''SELECT * FROM missing'')]"
  let ?run = "post_root demo ?body ?st"
  let ?e = "JsError ''Invalid object name'' ''RequestError at query''"
  have calls: "calls (snd ?run) = calls ?st @
      [Connect (sqlConfig ?st) (Inr 0), NewRequest 0 (Inr 0),
       Query 0 ''SELECT * FROM missing'' (Inl ?e)]"
    by (simp add: demo_simps)
  have s: "status (fst ?run) = 500" by (simp add: demo_simps)
  have p: "pool ?st = None" by (simp add: load_def)
  from post_root_error_keeps_pool [of demo ?body ?st "fst ?run" "snd ?run", OF _ calls s]
  have "pool (snd ?run) = Some 0" by simp
  with s p show ?thesis by simp
qed

text \<open>
  C4. For every POST / request that carries a query, before anything else is asked of the
  driver: if no pool is held, or the held pool reports disconnected,
  \<^verbatim>\<open>sql.connect\<close> is called with \<^verbatim>\<open>sqlConfig\<close>, once; when it resolves, the new
  pool replaces the module variable and the request of line 85 is created on the new pool,
  in the state the connect left the driver in; when it fails, the module variable is
  unchanged, nothing else is called and the answer is 500. If the held pool reports
  connected, no connect is called, the module variable is unchanged and the request is
  created on the held pool. \<^verbatim>\<open>sqlConfig\<close> itself never changes.
\<close>

theorem post_root_ensures_pool:
  assumes "body \<noteq> JUndefined" and "body \<noteq> JNull"
    and "truthy (get_prop body ''query'')"
  shows
    "(\<forall>p w. needs_pool P st \<and> sql_connect P (sqlConfig st) (world st) = (Inr p, w) \<longrightarrow>
        pool (snd (post_root P body st)) = Some p \<and>
        (\<exists>rest. calls (snd (post_root P body st)) =
                  calls st @ Connect (sqlConfig st) (Inr p) # rest \<and>
                (\<forall>c x. Connect c x \<notin> set rest) \<and>
                (\<forall>q. get_prop body ''query'' = JStr q \<longrightarrow>
                   (\<exists>rest'. rest = NewRequest p (fst (pool_request P p w)) # rest')))) \<and>
     (\<forall>e w. needs_pool P st \<and> sql_connect P (sqlConfig st) (world st) = (Inl e, w) \<longrightarrow>
        pool (snd (post_root P body st)) = pool st \<and>
        calls (snd (post_root P body st)) = calls st @ [Connect (sqlConfig st) (Inl e)] \<and>
        status (fst (post_root P body st)) = 500) \<and>
     (\<forall>p. pool st = Some p \<and> connected P p (world st) \<longrightarrow>
        pool (snd (post_root P body st)) = Some p \<and>
        (\<exists>rest. calls (snd (post_root P body st)) = calls st @ rest \<and>
                (\<forall>c x. Connect c x \<notin> set rest) \<and>
                (\<forall>q. get_prop body ''query'' = JStr q \<longrightarrow>
                   (\<exists>rest'. rest = NewRequest p (fst (pool_request P p (world st))) # rest')))) \<and>
     sqlConfig (snd (post_root P body st)) = sqlConfig st"
proof -
  let ?query = "get_prop body ''query''"
  let ?params = "if get_prop body ''parameters'' = JUndefined then JObj []
                 else get_prop body ''parameters''"
  obtain o1 st0 where e: "ensure_pool P st = (o1, st0)" by (cases "ensure_pool P st")
  have t: "post_root_try P body st =
             (case o1 of Inl err \<Rightarrow> (Inl err, st0)
              | Inr p \<Rightarrow> run_query P p ?query ?params st0)"
    using assms e by (simp add: post_root_try_def destructure_def)
  note cw = post_root_calls_world[of P body st]
  have run: "pool (snd (run_query P p ?query ?params st0)) = pool st0 \<and>
     (\<exists>rest. calls (snd (run_query P p ?query ?params st0)) = calls st0 @ rest \<and>
        (\<forall>c x. Connect c x \<notin> set rest) \<and>
        (\<forall>q. ?query = JStr q \<longrightarrow>
           (\<exists>rest'. rest = NewRequest p (fst (pool_request P p (world st0))) # rest')))" for p
  proof -
    obtain out st1 where r: "run_query P p ?query ?params st0 = (out, st1)"
      by (cases "run_query P p ?query ?params st0")
    from run_query_frame[OF r] run_query_trace[OF r] r show ?thesis by simp
  qed
  have c1: "pool (snd (post_root P body st)) = Some p \<and>
        (\<exists>rest. calls (snd (post_root P body st)) =
                  calls st @ Connect (sqlConfig st) (Inr p) # rest \<and>
                (\<forall>c x. Connect c x \<notin> set rest) \<and>
                (\<forall>q. ?query = JStr q \<longrightarrow>
                   (\<exists>rest'. rest = NewRequest p (fst (pool_request P p w)) # rest')))"
    if h: "needs_pool P st \<and> sql_connect P (sqlConfig st) (world st) = (Inr p, w)" for p w
    using e
  proof (cases rule: ensure_pool_cases)
    case (reused p')
    with h show ?thesis by (simp add: needs_pool_def)
  next
    case (connect_failed e')
    with h show ?thesis by simp
  next
    case (connect_ok p')
    with h have eq: "p' = p" "world st0 = w" by simp_all
    from run[of p] connect_ok eq t cw show ?thesis by auto
  qed
  have c2: "pool (snd (post_root P body st)) = pool st \<and>
        calls (snd (post_root P body st)) = calls st @ [Connect (sqlConfig st) (Inl err)] \<and>
        status (fst (post_root P body st)) = 500"
    if h: "needs_pool P st \<and> sql_connect P (sqlConfig st) (world st) = (Inl err, w)" for err w
    using e
  proof (cases rule: ensure_pool_cases)
    case (reused p')
    with h show ?thesis by (simp add: needs_pool_def)
  next
    case (connect_failed e')
    with h have "e' = err" by simp
    with connect_failed t cw show ?thesis
      by (auto simp: post_root_def)
  next
    case (connect_ok p')
    with h show ?thesis by simp
  qed
  have c3: "pool (snd (post_root P body st)) = Some p \<and>
        (\<exists>rest. calls (snd (post_root P body st)) = calls st @ rest \<and>
                (\<forall>c x. Connect c x \<notin> set rest) \<and>
                (\<forall>q. ?query = JStr q \<longrightarrow>
                   (\<exists>rest'. rest = NewRequest p (fst (pool_request P p (world st))) # rest')))"
    if h: "pool st = Some p \<and> connected P p (world st)" for p
    using e
  proof (cases rule: ensure_pool_cases)
    case (reused p')
    with h have "p' = p" by simp
    with run[of p] reused t cw h show ?thesis by auto
  next
    case (connect_failed e')
    with h show ?thesis by auto
  next
    case (connect_ok p')
    with h show ?thesis by auto
  qed
  have c4: "sqlConfig (snd (post_root P body st)) = sqlConfig st"
  proof -
    obtain out st1 where x: "post_root_try P body st = (out, st1)"
      by (cases "post_root_try P body st")
    from post_root_try_frame[OF x] x show ?thesis
      by (auto simp: post_root_def split: sum.splits)
  qed
  from c1 c2 c3 c4 show ?thesis by blast
qed

theorem post_root_ensures_pool_witness:
  "pool demo_dropped = Some 0 \<and> \<not> connected demo 0 (world demo_dropped) \<and>
   pool (snd (post_root demo (JObj [(''query'', JStr ''SELECT 1 AS x'')]) demo_dropped)) = Some 1 \<and>
   calls (snd (post_root demo (JObj [(''query'', JStr ''SELECT 1 AS x'')]) demo_dropped)) =
     [Connect (make_sqlConfig demo Map.empty) (Inr 0),
      Connect (make_sqlConfig demo Map.empty) (Inr 1), NewRequest 1 (Inr 0),
      Query 0 ''SELECT 1 AS x'' (Inr \<lparr> recordset = Some [JObj [(''x'', JNum 1)]] \<rparr>)] \<and>
   pool (snd (post_root demo (JObj [(''query'', JStr ''SELECT 1 AS x'')])
                 (load demo Map.empty (demo_db True)))) = Some 0 \<and>
   pool (snd (post_root demo (JObj [(''query'', JStr ''SELECT 1 AS x'')])
                 (on_listen demo (load demo Map.empty (demo_db True))))) = Some 0 \<and>
   calls (snd (post_root demo (JObj [(''query'', JStr ''SELECT 1 AS x'')])
                 (on_listen demo (load demo Map.empty (demo_db True))))) =
     [Connect (make_sqlConfig demo Map.empty) (Inr 0), NewRequest 0 (Inr 0),
      Query 0 ''SELECT 1 AS x'' (Inr \<lparr> recordset = Some [JObj [(''x'', JNum 1)]] \<rparr>)] \<and>
   pool (snd (post_root demo (JObj [(''query'', JStr ''SELECT 1 AS x'')])
                 (load demo Map.empty (demo_db False)))) = None \<and>
   status (fst (post_root demo (JObj [(''query'', JStr ''SELECT 1 AS x'')])
                 (load demo Map.empty (demo_db False)))) = 500"
proof -
  let ?body = "JObj [(''query'', JStr ''SELECT 1 AS x'')]"
  let ?st0 = "load demo Map.empty (demo_db True)"
  let ?st1 = "on_listen demo ?st0"
  let ?stF = "load demo Map.empty (demo_db False)"
  let ?cfg = "make_sqlConfig demo Map.empty"
  let ?e = "JsError ''Failed to connect'' ''ConnectionError at connect''"
  have b: "?body \<noteq> JUndefined" "?body \<noteq> JNull" "truthy (get_prop ?body ''query'')"
    by simp_all
  note T = post_root_ensures_pool [OF b]
  have d: "pool demo_dropped = Some 0 \<and> \<not> connected demo 0 (world demo_dropped)"
    by (simp add: demo_dropped_def demo_simps)
  have hd: "needs_pool demo demo_dropped \<and>
            sql_connect demo (sqlConfig demo_dropped) (world demo_dropped) =
              (Inr 1, snd (sql_connect demo (sqlConfig demo_dropped) (world demo_dropped)))"
    by (simp add: needs_pool_def demo_dropped_def demo_simps)
  have h0: "needs_pool demo ?st0 \<and>
            sql_connect demo (sqlConfig ?st0) (world ?st0) =
              (Inr 0, snd (sql_connect demo (sqlConfig ?st0) (world ?st0)))"
    by (simp add: needs_pool_def demo_simps)
  have h1: "pool ?st1 = Some 0 \<and> connected demo 0 (world ?st1)"
    by (simp add: demo_simps)
  have hF: "needs_pool demo ?stF \<and>
            sql_connect demo (sqlConfig ?stF) (world ?stF) = (Inl ?e, world ?stF)"
    by (simp add: needs_pool_def demo_simps)
  have pF: "pool ?stF = None" by (simp add: load_def)
  have cd: "calls (snd (post_root demo ?body demo_dropped)) =
     [Connect ?cfg (Inr 0), Connect ?cfg (Inr 1), NewRequest 1 (Inr 0),
      Query 0 ''SELECT 1 AS x'' (Inr \<lparr> recordset = Some [JObj [(''x'', JNum 1)]] \<rparr>)]"
    by (simp add: demo_dropped_def demo_simps)
  have c1: "calls (snd (post_root demo ?body ?st1)) =
     [Connect ?cfg (Inr 0), NewRequest 0 (Inr 0),
      Query 0 ''SELECT 1 AS x'' (Inr \<lparr> recordset = Some [JObj [(''x'', JNum 1)]] \<rparr>)]"
    by (simp add: demo_simps)
  from T [where P = demo and st = demo_dropped, THEN conjunct1, rule_format, OF hd]
  have a1: "pool (snd (post_root demo ?body demo_dropped)) = Some 1" by simp
  from T [where P = demo and st = ?st0, THEN conjunct1, rule_format, OF h0]
  have a2: "pool (snd (post_root demo ?body ?st0)) = Some 0" by simp
  from T [where P = demo and st = ?st1, THEN conjunct2, THEN conjunct2, THEN conjunct1,
          rule_format, OF h1]
  have a3: "pool (snd (post_root demo ?body ?st1)) = Some 0" by simp
  from T [where P = demo and st = ?stF, THEN conjunct2, THEN conjunct1, rule_format, OF hF] pF
  have a4: "pool (snd (post_root demo ?body ?stF)) = None \<and>
            status (fst (post_root demo ?body ?stF)) = 500" by simp
  from d a1 a2 a3 a4 cd c1 show ?thesis by simp
qed

text \<open>
  C7. For a POST / request with a query string whose \<^verbatim>\<open>parameters\<close> field is a
  mapping \<open>ps\<close>, or is absent (then \<open>ps\<close> is empty), once the pool is acquired and the
  request created: if the driver accepts every entry, the driver calls of the handler are
  the request, one \<^verbatim>\<open>request.input\<close> for each entry of \<open>ps\<close>, in order, on that one
  request, with the entry's name and value as they came, and then \<^verbatim>\<open>request.query\<close>
  with the query string as it came; with \<^verbatim>\<open>parameters\<close> absent no
  \<^verbatim>\<open>request.input\<close> is called and the query runs all the same. If the driver refuses
  an entry, the entries before it were bound, that entry was passed as it came, no later
  entry is passed, the query is not run and the answer is 500.
\<close>

theorem post_root_binds_parameters:
  assumes "body \<noteq> JUndefined" and "body \<noteq> JNull"
    and "get_prop body ''query'' = JStr q" and "q \<noteq> []"
    and "get_prop body ''parameters'' = JObj ps \<or>
         (get_prop body ''parameters'' = JUndefined \<and> ps = [])"
    and "acquired P st p w0 pre"
    and "pool_request P p w0 = (Inr r, w1)"
  shows "(inputs_accepted P r ps w1 \<longrightarrow>
            calls (snd (post_root P body st)) =
              calls st @ pre @ NewRequest p (Inr r) # bound_inputs r ps @
                [Query r q (fst (request_query P r q (after_inputs P r ps w1)))]) \<and>
         (\<forall>n k v e w.
            n < length ps \<and> ps ! n = (k, v) \<and> inputs_accepted P r (take n ps) w1 \<and>
            request_input P r k v (after_inputs P r (take n ps) w1) = (Some e, w) \<longrightarrow>
            calls (snd (post_root P body st)) =
              calls st @ pre @ NewRequest p (Inr r) # bound_inputs r (take n ps) @
                [Input r k v (Some e)] \<and>
            status (fst (post_root P body st)) = 500)"
proof (intro conjI allI impI)
  let ?st0 = "snd (ensure_pool P st)"
  note a = ensure_pool_acquired[OF assms(6)]
  have t: "post_root_try P body st = run_query P p (JStr q) (JObj ps) ?st0"
    by (rule post_root_try_runs[OF assms(1-6)])
  from a assms(7) have rq: "pool_request P p (world ?st0) = (Inr r, w1)" by simp
  have oe: "object_entries P (JObj ps) = Inr ps" by simp
  {
    assume acc: "inputs_accepted P r ps w1"
    obtain out w2 where x: "request_query P r q (after_inputs P r ps w1) = (out, w2)"
      by (cases "request_query P r q (after_inputs P r ps w1)")
    from run_query_accepted[OF rq oe acc x] a t post_root_calls_world[of P body st] x
    show "calls (snd (post_root P body st)) =
              calls st @ pre @ NewRequest p (Inr r) # bound_inputs r ps @
                [Query r q (fst (request_query P r q (after_inputs P r ps w1)))]"
      by simp
  }
  {
    fix n k v e w
    assume h: "n < length ps \<and> ps ! n = (k, v) \<and> inputs_accepted P r (take n ps) w1 \<and>
            request_input P r k v (after_inputs P r (take n ps) w1) = (Some e, w)"
    from h have h1: "n < length ps" and h2: "ps ! n = (k, v)"
      and h3: "inputs_accepted P r (take n ps) w1"
      and h4: "request_input P r k v (after_inputs P r (take n ps) w1) = (Some e, w)"
      by simp_all
    note f = run_query_refused[OF rq oe h1 h2 h3 h4, of q]
    from f a t post_root_calls_world[of P body st]
    show "calls (snd (post_root P body st)) =
              calls st @ pre @ NewRequest p (Inr r) # bound_inputs r (take n ps) @
                [Input r k v (Some e)]"
      by simp
    from f t have "fst (post_root_try P body st) = Inl e" by simp
    then show "status (fst (post_root P body st)) = 500"
      by (auto simp: post_root_def split: prod.splits sum.splits)
  }
qed

theorem post_root_binds_parameters_witness:
  "calls (snd (post_root demo
       (JObj [(''query'', JStr ''SELECT @id AS id''),
              (''parameters'', JObj [(''id'', JNum 5), (''name'', JStr ''O'')])])
       (load demo Map.empty (demo_db True)))) =
     [Connect (make_sqlConfig demo Map.empty) (Inr 0), NewRequest 0 (Inr 0),
      Input 0 ''id'' (JNum 5) None, Input 0 ''name'' (JStr ''O'') None,
      Query 0 ''SELECT @id AS id'' (Inr \<lparr> recordset = Some [JObj [(''id'', JNum 5)]] \<rparr>)] \<and>
   calls (snd (post_root demo (JObj [(''query'', JStr ''SELECT 1 AS x'')])
       (load demo Map.empty (demo_db True)))) =
     [Connect (make_sqlConfig demo Map.empty) (Inr 0), NewRequest 0 (Inr 0),
      Query 0 ''SELECT 1 AS x'' (Inr \<lparr> recordset = Some [JObj [(''x'', JNum 1)]] \<rparr>)] \<and>
   calls (snd (post_root demo
       (JObj [(''query'', JStr ''SELECT @id AS id''),
              (''parameters'', JObj [(''id'', JNum 5), ('''', JNum 6), (''name'', JStr ''O'')])])
       (load demo Map.empty (demo_db True)))) =
     [Connect (make_sqlConfig demo Map.empty) (Inr 0), NewRequest 0 (Inr 0),
      Input 0 ''id'' (JNum 5) None,
      Input 0 '''' (JNum 6) (Some (JsError ''Invalid parameter name'' ''RequestError at input''))]"
proof -
  let ?st = "load demo Map.empty (demo_db True)"
  let ?q = "''SELECT @id AS id''"
  let ?ps1 = "[(''id'', JNum 5), (''name'', JStr ''O'')]"
  let ?ps3 = "[(''id'', JNum 5), ('''', JNum 6), (''name'', JStr ''O'')]"
  let ?b1 = "JObj [(''query'', JStr ?q), (''parameters'', JObj ?ps1)]"
  let ?b2 = "JObj [(''query'', JStr ''SELECT 1 AS x'')]"
  let ?b3 = "JObj [(''query'', JStr ?q), (''parameters'', JObj ?ps3)]"
  let ?pre = "[Connect (sqlConfig ?st) (Inr 0)]"
  let ?w0 = "snd (sql_connect demo (sqlConfig ?st) (world ?st))"
  let ?w1 = "snd (pool_request demo 0 ?w0)"
  let ?e = "JsError ''Invalid parameter name'' ''RequestError at input''"
  have a: "acquired demo ?st 0 ?w0 ?pre"
    by (simp add: acquired_simps demo_simps)
  have r: "pool_request demo 0 ?w0 = (Inr 0, ?w1)" by (simp add: demo_simps)
  have i1: "inputs_accepted demo 0 ?ps1 ?w1" by (simp add: demo_simps)
  have i2: "inputs_accepted demo 0 [] ?w1" by simp
  have q1: "fst (request_query demo 0 ?q (after_inputs demo 0 ?ps1 ?w1)) =
              Inr \<lparr> recordset = Some [JObj [(''id'', JNum 5)]] \<rparr>"
    by (simp add: demo_simps)
  have q2: "fst (request_query demo 0 ''SELECT 1 AS x'' (after_inputs demo 0 [] ?w1)) =
              Inr \<lparr> recordset = Some [JObj [(''x'', JNum 1)]] \<rparr>"
    by (simp add: demo_simps)
  have i3: "Suc 0 < length ?ps3 \<and> ?ps3 ! Suc 0 = ('''', JNum 6) \<and>
            inputs_accepted demo 0 (take (Suc 0) ?ps3) ?w1 \<and>
            request_input demo 0 '''' (JNum 6) (after_inputs demo 0 (take (Suc 0) ?ps3) ?w1) =
              (Some ?e, after_inputs demo 0 (take (Suc 0) ?ps3) ?w1)"
    by (simp add: demo_simps)
  have l: "calls ?st = [] \<and> sqlConfig ?st = make_sqlConfig demo Map.empty"
    by (simp add: load_def)
  from post_root_binds_parameters [of ?b1 ?q ?ps1 demo ?st 0 ?w0 ?pre 0 ?w1, OF _ _ _ _ _ a r]
    i1 q1 l
  have c1: "calls (snd (post_root demo ?b1 ?st)) =
     [Connect (make_sqlConfig demo Map.empty) (Inr 0), NewRequest 0 (Inr 0),
      Input 0 ''id'' (JNum 5) None, Input 0 ''name'' (JStr ''O'') None,
      Query 0 ?q (Inr \<lparr> recordset = Some [JObj [(''id'', JNum 5)]] \<rparr>)]"
    by (simp add: bound_inputs_def)
  from post_root_binds_parameters [of ?b2 "''SELECT 1 AS x''" "[]" demo ?st 0 ?w0 ?pre 0 ?w1,
         OF _ _ _ _ _ a r] i2 q2 l
  have c2: "calls (snd (post_root demo ?b2 ?st)) =
     [Connect (make_sqlConfig demo Map.empty) (Inr 0), NewRequest 0 (Inr 0),
      Query 0 ''SELECT 1 AS x'' (Inr \<lparr> recordset = Some [JObj [(''x'', JNum 1)]] \<rparr>)]"
    by (simp add: bound_inputs_def)
  have b3: "?b3 \<noteq> JUndefined" "?b3 \<noteq> JNull" "get_prop ?b3 ''query'' = JStr ?q" "?q \<noteq> []"
    "get_prop ?b3 ''parameters'' = JObj ?ps3 \<or>
     (get_prop ?b3 ''parameters'' = JUndefined \<and> ?ps3 = [])"
    by simp_all
  note t3 = post_root_binds_parameters [OF b3 a r, THEN conjunct2, rule_format, OF i3]
  from t3 l
  have c3: "calls (snd (post_root demo ?b3 ?st)) =
     [Connect (make_sqlConfig demo Map.empty) (Inr 0), NewRequest 0 (Inr 0),
      Input 0 ''id'' (JNum 5) None, Input 0 '''' (JNum 6) (Some ?e)]"
    by (simp add: bound_inputs_def)
  from c1 c2 c3 show ?thesis by simp
qed

text \<open>
  C10, as stated, fails. A body that is a JSON array is not a JSON object, yet
  destructuring it does not throw: its \<^verbatim>\<open>query\<close> is \<^verbatim>\<open>undefined\<close> and the answer
  is 400, not 500.
\<close>

theorem post_root_array_body_counterexample:
  "status (fst (post_root demo (JArr [JStr ''SELECT 1 AS x''])
                  (load demo Map.empty (demo_db True)))) = 400 \<and>
   body_field (fst (post_root demo (JArr [JStr ''SELECT 1 AS x''])
                  (load demo Map.empty (demo_db True)))) ''error'' =
     Some (JStr ''Query is required'')"
  by (simp add: demo_simps)

text \<open>
  C10, amended. The handler always answers, with status 200, 400 or 500. Every exception
  raised in the \<^verbatim>\<open>try\<close> block is answered with 500 and the exception's message in the
  field \<^verbatim>\<open>error\<close>. A body that is \<^verbatim>\<open>undefined\<close> or \<^verbatim>\<open>null\<close> makes the
  destructuring throw and is answered with 500, the driver not called; a body of any other
  kind that is not an object (array, string, number, boolean) has no \<^verbatim>\<open>query\<close> and
  is answered with 400, the state unchanged.
\<close>

theorem post_root_total:
  "(status (fst (post_root P body st)) = 200 \<or>
    status (fst (post_root P body st)) = 400 \<or>
    status (fst (post_root P body st)) = 500) \<and>
   (\<forall>e st1. post_root_try P body st = (Inl e, st1) \<longrightarrow>
      status (fst (post_root P body st)) = 500 \<and>
      body_field (fst (post_root P body st)) ''error'' = Some (JStr (message e))) \<and>
   (body = JUndefined \<or> body = JNull \<longrightarrow>
      status (fst (post_root P body st)) = 500 \<and>
      body_field (fst (post_root P body st)) ''error'' =
        Some (JStr (message (type_error P DestructureNullish))) \<and>
      calls (snd (post_root P body st)) = calls st \<and>
      pool (snd (post_root P body st)) = pool st) \<and>
   (body \<noteq> JUndefined \<and> body \<noteq> JNull \<and> (\<forall>fs. body \<noteq> JObj fs) \<longrightarrow>
      status (fst (post_root P body st)) = 400 \<and>
      snd (post_root P body st) = st)"
proof (intro conjI allI impI)
  show "status (fst (post_root P body st)) = 200 \<or>
        status (fst (post_root P body st)) = 400 \<or>
        status (fst (post_root P body st)) = 500"
    by (rule post_root_status)
next
  fix e st1
  assume "post_root_try P body st = (Inl e, st1)"
  then show "status (fst (post_root P body st)) = 500"
    and "body_field (fst (post_root P body st)) ''error'' = Some (JStr (message e))"
    by (simp_all add: post_root_def body_field_def)
next
  assume "body = JUndefined \<or> body = JNull"
  then have t: "post_root_try P body st = (Inl (type_error P DestructureNullish), st)"
    by (auto simp: post_root_try_def destructure_def)
  then show "status (fst (post_root P body st)) = 500"
    and "body_field (fst (post_root P body st)) ''error'' =
           Some (JStr (message (type_error P DestructureNullish)))"
    and "calls (snd (post_root P body st)) = calls st"
    and "pool (snd (post_root P body st)) = pool st"
    by (simp_all add: post_root_def body_field_def)
next
  assume a: "body \<noteq> JUndefined \<and> body \<noteq> JNull \<and> (\<forall>fs. body \<noteq> JObj fs)"
  then have "get_prop body ''query'' = JUndefined" by (cases body) auto
  with a show "status (fst (post_root P body st)) = 400"
    and "snd (post_root P body st) = st"
    by (simp_all add: post_root_def post_root_try_def destructure_def)
qed

theorem post_root_total_witness:
  "status (fst (post_root demo JUndefined (load demo Map.empty (demo_db True)))) = 500 \<and>
   body_field (fst (post_root demo JUndefined (load demo Map.empty (demo_db True)))) ''error'' =
     Some (JStr ''Cannot destructure property query of req.body'') \<and>
   calls (snd (post_root demo JUndefined (load demo Map.empty (demo_db True)))) = [] \<and>
   status (fst (post_root demo (JStr ''SELECT 1 AS x'') (load demo Map.empty (demo_db True)))) = 400 \<and>
   status (fst (post_root demo (JObj [(''query'', JNum 7)])
                  (load demo Map.empty (demo_db True)))) = 500 \<and>
   body_field (fst (post_root demo (JObj [(''query'', JNum 7)])
                  (load demo Map.empty (demo_db True)))) ''error'' =
     Some (JStr ''query.substring is not a function'')"
proof -
  let ?st = "load demo Map.empty (demo_db True)"
  let ?b3 = "JObj [(''query'', JNum 7)]"
  have t: "post_root_try demo ?b3 ?st =
             (Inl (demo_type_error SubstringNotFunction), snd (post_root_try demo ?b3 ?st))"
    by (simp add: demo_simps)
  have m: "message (demo_type_error SubstringNotFunction) = ''query.substring is not a function''"
          "message (type_error demo DestructureNullish) =
             ''Cannot destructure property query of req.body''"
    by (simp_all add: demo_def demo_type_error_def)
  have l0: "calls ?st = []" by (simp add: load_def)
  show ?thesis
    using post_root_total [of demo JUndefined ?st]
          post_root_total [of demo "JStr ''SELECT 1 AS x''" ?st]
          post_root_total [of demo ?b3 ?st] t m l0
    by auto
qed

text \<open>
  C6. When \<^verbatim>\<open>sql.connect\<close> fails in the callback of \<^verbatim>\<open>app.listen\<close>, the failure is
  written to the console (by \<^verbatim>\<open>initializePool\<close> and by the callback) and goes no
  further: \<^verbatim>\<open>process.exit\<close> is not called and the pool reference stays as it was. The
  next POST / request that carries a query then calls \<^verbatim>\<open>sql.connect\<close> again, with the
  same configuration, before anything else.
\<close>

theorem on_listen_failure_not_fatal:
  assumes "fst (sql_connect P (sqlConfig st) (world st)) = Inl err"
  shows "pool (on_listen P st) = pool st \<and>
         exited (on_listen P st) = exited st \<and>
         sqlConfig (on_listen P st) = sqlConfig st \<and>
         calls (on_listen P st) = calls st @ [Connect (sqlConfig st) (Inl err)] \<and>
         console (on_listen P st) = console st @
           [ConsoleLog [Str (''MSSQL Bridge listening on port '' @
                             (case PORT st of Inl s \<Rightarrow> s | Inr n \<Rightarrow> show_nat n))],
            ConsoleError [Str ''Database connection failed:'', Err err],
            ConsoleError [Str ''Failed to initialize database connection'']] \<and>
         (\<forall>body. pool st = None \<and> body \<noteq> JUndefined \<and> body \<noteq> JNull \<and>
                 truthy (get_prop body ''query'') \<longrightarrow>
            (\<exists>evs. calls (snd (post_root P body (on_listen P st))) =
               calls (on_listen P st) @
               Connect (sqlConfig st)
                 (fst (sql_connect P (sqlConfig st) (world (on_listen P st)))) # evs))"
proof -
  let ?st1 = "on_listen P st"
  have basics: "pool ?st1 = pool st" "exited ?st1 = exited st" "sqlConfig ?st1 = sqlConfig st"
    "calls ?st1 = calls st @ [Connect (sqlConfig st) (Inl err)]"
    "console ?st1 = console st @
           [ConsoleLog [Str (''MSSQL Bridge listening on port '' @
                             (case PORT st of Inl s \<Rightarrow> s | Inr n \<Rightarrow> show_nat n))],
            ConsoleError [Str ''Database connection failed:'', Err err],
            ConsoleError [Str ''Failed to initialize database connection'']]"
    using assms
    by (auto simp: on_listen_def initializePool_def Let_def split: prod.splits sum.splits)
  have retry: "\<exists>evs. calls (snd (post_root P body ?st1)) =
               calls ?st1 @ Connect (sqlConfig st)
                 (fst (sql_connect P (sqlConfig st) (world ?st1))) # evs"
    if b: "pool st = None \<and> body \<noteq> JUndefined \<and> body \<noteq> JNull \<and> truthy (get_prop body ''query'')"
    for body
  proof -
    obtain out st2 where t: "post_root_try P body ?st1 = (out, st2)"
      by (cases "post_root_try P body ?st1")
    have c: "calls (snd (post_root P body ?st1)) = calls st2"
      using t by (auto simp: post_root_def split: sum.splits)
    from t show ?thesis
    proof (cases rule: post_root_try_cases)
      case (no_pool e)
      from no_pool(4) show ?thesis
        by (cases rule: ensure_pool_cases) (use b basics c in auto)
    next
      case (ran p st0)
      from ran(4) have pre: "calls st0 = calls ?st1 @ [Connect (sqlConfig st)
                 (fst (sql_connect P (sqlConfig st) (world ?st1)))]"
        by (cases rule: ensure_pool_cases) (use b basics in auto)
      from ran(5) show ?thesis
        by (cases rule: run_query_cases) (use c pre in auto)
    qed (use b in auto)
  qed
  from basics retry show ?thesis by blast
qed

theorem on_listen_failure_not_fatal_witness:
  "pool (on_listen demo (load demo Map.empty (demo_db False))) = None \<and>
   exited (on_listen demo (load demo Map.empty (demo_db False))) = None \<and>
   calls (on_listen demo (load demo Map.empty (demo_db False))) =
     [Connect (make_sqlConfig demo Map.empty)
        (Inl (JsError ''Failed to connect'' ''ConnectionError at connect''))] \<and>
   calls (snd (post_root demo (JObj [(''query'', JStr ''SELECT 1 AS x'')])
                 (on_listen demo (load demo Map.empty (demo_db False))))) =
     [Connect (make_sqlConfig demo Map.empty)
        (Inl (JsError ''Failed to connect'' ''ConnectionError at connect'')),
      Connect (make_sqlConfig demo Map.empty)
        (Inl (JsError ''Failed to connect'' ''ConnectionError at connect''))]"
proof -
  let ?st = "load demo Map.empty (demo_db False)"
  let ?e = "JsError ''Failed to connect'' ''ConnectionError at connect''"
  have f: "fst (sql_connect demo (sqlConfig ?st) (world ?st)) = Inl ?e"
    by (simp add: demo_simps)
  have l0: "calls ?st = [] \<and> pool ?st = None \<and> exited ?st = None \<and>
            sqlConfig ?st = make_sqlConfig demo Map.empty"
    by (simp add: load_def)
  have c: "calls (snd (post_root demo (JObj [(''query'', JStr ''SELECT 1 AS x'')])
                 (on_listen demo ?st))) =
     [Connect (make_sqlConfig demo Map.empty) (Inl ?e),
      Connect (make_sqlConfig demo Map.empty) (Inl ?e)]"
    by (simp add: demo_simps)
  from on_listen_failure_not_fatal [of demo ?st ?e, OF f] l0 c show ?thesis by simp
qed

text \<open>
  C5, as stated, fails. Before any pool connection the module variable is \<^verbatim>\<open>null\<close>,
  and \<^verbatim>\<open>pool && pool.connected\<close> is then \<^verbatim>\<open>null\<close> itself: GET /health answers
  \<^verbatim>\<open>connected: null\<close>, not \<^verbatim>\<open>connected: false\<close>.
\<close>

theorem get_health_null_counterexample:
  "calls (load demo Map.empty (demo_db True)) = [] \<and>
   body_field (get_health demo (load demo Map.empty (demo_db True))) ''connected'' = Some JNull \<and>
   body_field (get_health demo (load demo Map.empty (demo_db True))) ''connected'' \<noteq>
     Some (JBool False)"
  by (simp add: demo_simps)

text \<open>
  C5, amended. Whatever has arrived since the module was loaded (the listen callback, POST
  requests, SIGTERM), as long as no \<^verbatim>\<open>sql.connect\<close> has resolved with a pool,
  GET /health answers \<^verbatim>\<open>connected: null\<close>. Right after a POST / request answered with
  200, GET /health answers \<^verbatim>\<open>connected: true\<close>, for a driver whose fresh pools report
  connected and whose successful request calls leave connected pools connected.
\<close>

theorem get_health_connected:
  "(\<not> connect_seen (serve P as (load P e w)) \<longrightarrow>
      body_field (get_health P (serve P as (load P e w))) ''connected'' = Some JNull) \<and>
   (keeps_connected P \<and> status (fst (post_root P body st)) = 200 \<longrightarrow>
      body_field (get_health P (snd (post_root P body st))) ''connected'' = Some (JBool True))"
proof (intro conjI impI)
  assume n: "\<not> connect_seen (serve P as (load P e w))"
  have "pool (load P e w) = None" by (simp add: load_def)
  from serve_connect_seen[of "load P e w" P as] this n
  have "pool (serve P as (load P e w)) = None" by auto
  then show "body_field (get_health P (serve P as (load P e w))) ''connected'' = Some JNull"
    by (simp add: body_field_def get_health_def connected_flag_def)
next
  assume a: "keeps_connected P \<and> status (fst (post_root P body st)) = 200"
  from post_root_ok_connected[of P body st "fst (post_root P body st)" "snd (post_root P body st)"] a
  obtain p where "pool (snd (post_root P body st)) = Some p"
    "connected P p (world (snd (post_root P body st)))" by auto
  then show "body_field (get_health P (snd (post_root P body st))) ''connected'' = Some (JBool True)"
    by (simp add: body_field_def get_health_def connected_flag_def)
qed

theorem get_health_connected_witness:
  "\<not> connect_seen (serve demo [Listening, PostRoot (JObj [(''query'', JStr ''SELECT 1 AS x'')])]
                     (load demo Map.empty (demo_db False))) \<and>
   body_field (get_health demo
       (serve demo [Listening, PostRoot (JObj [(''query'', JStr ''SELECT 1 AS x'')])]
          (load demo Map.empty (demo_db False)))) ''connected'' = Some JNull \<and>
   status (fst (post_root demo (JObj [(''query'', JStr ''SELECT 1 AS x'')])
                  (load demo Map.empty (demo_db True)))) = 200 \<and>
   body_field (get_health demo
       (snd (post_root demo (JObj [(''query'', JStr ''SELECT 1 AS x'')])
               (load demo Map.empty (demo_db True))))) ''connected'' = Some (JBool True)"
proof -
  let ?body = "JObj [(''query'', JStr ''SELECT 1 AS x'')]"
  let ?as = "[Listening, PostRoot ?body]"
  have n: "\<not> connect_seen (serve demo ?as (load demo Map.empty (demo_db False)))"
    by (simp add: connect_seen_def demo_simps)
  have s: "status (fst (post_root demo ?body (load demo Map.empty (demo_db True)))) = 200"
    by (simp add: demo_simps)
  from get_health_connected [of demo ?as Map.empty "demo_db False" ?body
         "load demo Map.empty (demo_db True)"] n s demo_keeps_connected
  show ?thesis by simp
qed

end
